theory Spec2Isabelle
  imports Complex_Main "HOL-Library.Log_Nat"
begin

section \<open>Python values, lists and exceptions\<close>

text \<open>
  The replay memories of \<^verbatim>\<open>tmrl/custom/custom_memories.py\<close> keep their rows in
  \<^verbatim>\<open>self.data\<close>, a Python list of columns; every column is a Python list. The index
  column holds integers, the other columns hold whatever the samples carry (actions,
  speeds, lidar frames, rewards, flags, info dictionaries). The code only moves these
  payloads around, so they are values of a type parameter; integers are kept apart because
  the code adds one to the last stored index.
\<close>

datatype error = IndexError | ValueError | TypeError | ZeroDivisionError | OverflowError

datatype 'v pyobj = PyInt int | PyObj 'v

definition after :: "error + 'a \<Rightarrow> ('a \<Rightarrow> error + 'b) \<Rightarrow> error + 'b" where
  "after r f = (case r of Inl e \<Rightarrow> Inl e | Inr x \<Rightarrow> f x)"

definition py_index :: "'a list \<Rightarrow> int \<Rightarrow> error + 'a" where
  \<comment> \<open>\<^verbatim>\<open>xs[i]\<close>: a negative index counts from the end, anything else out of range raises.\<close>
  "py_index xs i =
     (let n = int (length xs); j = (if i < 0 then i + n else i)
      in if 0 \<le> j \<and> j < n then Inr (xs ! nat j) else Inl IndexError)"

definition py_bound :: "nat \<Rightarrow> int \<Rightarrow> nat" where
  \<comment> \<open>how a slice bound is read: negative bounds count from the end, all are clamped.\<close>
  "py_bound n i = (if i < 0 then nat (max 0 (i + int n)) else min (nat i) n)"

definition py_slice :: "'a list \<Rightarrow> int \<Rightarrow> int \<Rightarrow> 'a list" where
  \<comment> \<open>\<^verbatim>\<open>xs[a:b]\<close>; never raises.\<close>
  "py_slice xs a b =
     (let lo = py_bound (length xs) a; hi = py_bound (length xs) b
      in take (hi - lo) (drop lo xs))"

definition py_slice_from :: "'a list \<Rightarrow> int \<Rightarrow> 'a list" where
  \<comment> \<open>\<^verbatim>\<open>xs[a:]\<close>\<close>
  "py_slice_from xs a = drop (py_bound (length xs) a) xs"

definition py_slice_to :: "'a list \<Rightarrow> int \<Rightarrow> 'a list" where
  \<comment> \<open>\<^verbatim>\<open>xs[:b]\<close>\<close>
  "py_slice_to xs b = take (py_bound (length xs) b) xs"

definition py_succ :: "'v pyobj \<Rightarrow> error + int" where
  \<comment> \<open>\<^verbatim>\<open>x + 1\<close> on a stored index; an object that is no integer raises.\<close>
  "py_succ x = (case x of PyInt k \<Rightarrow> Inr (k + 1) | PyObj _ \<Rightarrow> Inl TypeError)"

definition np_stack :: "'a list \<Rightarrow> error + 'a list" where
  \<comment> \<open>\<^verbatim>\<open>np.stack(res)\<close>: the frames in order along a new first axis; numpy raises
      ValueError on an empty list. All frames are taken to have one shape.\<close>
  "np_stack res = (if res = [] then Inl ValueError else Inr res)"

section \<open>MemoryTMNF and MemoryTMNFLidar\<close>

text \<open>
  The fields that \<^verbatim>\<open>MemoryTMNF.__init__\<close> sets, and \<^verbatim>\<open>self.data\<close> and
  \<^verbatim>\<open>self.memory_size\<close> of the base class.
\<close>

record 'v memory_tmnf =
  imgs_obs :: int
  act_buf_len :: int
  min_samples :: int
  start_imgs_offset :: int
  start_acts_offset :: int
  memory_size :: int
  data :: "'v pyobj list list"

text \<open>A sample of a buffer: \<^verbatim>\<open>(act, (speed, lidar), rew, done, info)\<close>.\<close>

type_synonym 'v sample =
  "'v pyobj \<times> ('v pyobj \<times> 'v pyobj) \<times> 'v pyobj \<times> 'v pyobj \<times> 'v pyobj"

text \<open>An observation \<^verbatim>\<open>(speed, imgs, *act_buf)\<close>: the scalar, the image stack, the actions.\<close>

type_synonym 'v observation = "'v pyobj \<times> 'v pyobj list \<times> 'v pyobj list"

text \<open>What \<^verbatim>\<open>get_transition\<close> returns: \<^verbatim>\<open>last_obs, new_act, rew, new_obs, done, info\<close>.\<close>

type_synonym 'v transition =
  "'v observation \<times> 'v pyobj \<times> 'v pyobj \<times> 'v observation \<times> 'v pyobj \<times> 'v pyobj"

definition MemoryTMNF_init :: "int \<Rightarrow> int \<Rightarrow> int \<Rightarrow> 'v memory_tmnf" where
  \<comment> \<open>\<^verbatim>\<open>MemoryTMNF(memory_size, imgs_obs=.., act_buf_len=..)\<close> with no stored data\<close>
  "MemoryTMNF_init msize io abl =
     (let ms = max io abl in
      \<lparr>imgs_obs = io, act_buf_len = abl, min_samples = ms,
       start_imgs_offset = max 0 (ms - io), start_acts_offset = max 0 (ms - abl),
       memory_size = msize, data = []\<rparr>)"

definition TMNF_len :: "('v, 'z) memory_tmnf_scheme \<Rightarrow> int" where
  \<comment> \<open>\<^verbatim>\<open>MemoryTMNF.__len__\<close>\<close>
  "TMNF_len m =
     (if length (data m) = 0 then 0
      else let res = int (length (data m ! 0)) - min_samples m - 1
           in if res < 0 then 0 else res)"

definition field :: "('v, 'z) memory_tmnf_scheme \<Rightarrow> int \<Rightarrow> int \<Rightarrow> error + 'v pyobj" where
  \<comment> \<open>\<^verbatim>\<open>self.data[k][i]\<close>\<close>
  "field m k i = after (py_index (data m) k) (\<lambda>c. py_index c i)"

definition load_imgs :: "'v memory_tmnf \<Rightarrow> int \<Rightarrow> error + 'v pyobj list" where
  "load_imgs m item =
     after (py_index (data m) 3) (\<lambda>c.
       np_stack (py_slice c (item + start_imgs_offset m)
                            (item + start_imgs_offset m + imgs_obs m + 1)))"

definition load_acts :: "'v memory_tmnf \<Rightarrow> int \<Rightarrow> error + 'v pyobj list" where
  "load_acts m item =
     after (py_index (data m) 1) (\<lambda>c.
       Inr (py_slice c (item + start_acts_offset m)
                       (item + start_acts_offset m + act_buf_len m + 1)))"

text \<open>
  \<^verbatim>\<open>MemoryTMNFLidar.get_transition\<close>, statement by statement. \<^verbatim>\<open>np.float32\<close> is the
  parameter \<open>f32\<close>.
\<close>

definition get_transition ::
  "('v pyobj \<Rightarrow> 'v pyobj) \<Rightarrow> 'v memory_tmnf \<Rightarrow> int \<Rightarrow> error + 'v transition" where
  "get_transition f32 m item =
     (let idx_last = item + min_samples m - 1;
          idx_now = item + min_samples m
      in after (load_acts m item) (\<lambda>acts.
         let last_act_buf = py_slice_to acts (- 1);
             new_act_buf = py_slice_from acts 1
         in after (load_imgs m item) (\<lambda>imgs.
            after (field m 2 idx_last) (\<lambda>speed_last.
            let last_obs = (speed_last, py_slice_to imgs (- 1), last_act_buf)
            in after (field m 5 idx_now) (\<lambda>r.
               let rew = f32 r
               in after (field m 1 idx_now) (\<lambda>new_act.
                  after (field m 2 idx_now) (\<lambda>speed_now.
                  let new_obs = (speed_now, py_slice_from imgs 1, new_act_buf)
                  in after (field m 4 idx_now) (\<lambda>done.
                     after (field m 6 idx_now) (\<lambda>info.
                       Inr (last_obs, new_act, rew, new_obs, done, info))))))))))"

text \<open>
  \<^verbatim>\<open>self.data[k] += d\<close> for the first columns, one per list of \<open>ds\<close>, in order; a
  missing column raises IndexError.
\<close>

definition extend_cols ::
  "'a list list \<Rightarrow> 'a list list \<Rightarrow> error + 'a list list" where
  "extend_cols dat ds =
     (if length dat < length ds then Inl IndexError
      else Inr (map2 (@) (take (length ds) dat) ds @ drop (length ds) dat))"

text \<open>
  \<^verbatim>\<open>self.data[k] = self.data[k][to_trim:]\<close> for the first \<open>k\<close> columns.
\<close>

definition trim_cols :: "nat \<Rightarrow> int \<Rightarrow> 'a list list \<Rightarrow> error + 'a list list" where
  "trim_cols k to_trim dat =
     (if length dat < k then Inl IndexError
      else Inr (map (\<lambda>c. py_slice_from c to_trim) (take k dat) @ drop k dat))"

text \<open>\<^verbatim>\<open>MemoryTMNFLidar.append_buffer\<close>; \<open>buffer\<close> is \<^verbatim>\<open>buffer.memory\<close>.\<close>

definition append_buffer :: "'v sample list \<Rightarrow> 'v memory_tmnf \<Rightarrow> error + 'v memory_tmnf" where
  "append_buffer buffer m =
     after (if 0 < TMNF_len m then after (field m 0 (- 1)) py_succ else Inr 0)
       (\<lambda>first_data_idx.
         let d0 = map (\<lambda>i. PyInt (first_data_idx + int i)) [0..<length buffer];
             d1 = map (\<lambda>(act, (speed, lidar), rew, done, info). act) buffer;
             d2 = map (\<lambda>(act, (speed, lidar), rew, done, info). speed) buffer;
             d3 = map (\<lambda>(act, (speed, lidar), rew, done, info). lidar) buffer;
             d4 = map (\<lambda>(act, (speed, lidar), rew, done, info). done) buffer;
             d5 = map (\<lambda>(act, (speed, lidar), rew, done, info). rew) buffer;
             d6 = map (\<lambda>(act, (speed, lidar), rew, done, info). info) buffer
         in after (if 0 < TMNF_len m
                 then extend_cols (data m) [d0, d1, d2, d3, d4, d5, d6]
                 else Inr (data m @ [d0, d1, d2, d3, d4, d5, d6]))
              (\<lambda>dat.
                let m1 = m\<lparr>data := dat\<rparr>;
                    to_trim = TMNF_len m1 - memory_size m
                in if 0 < to_trim
                   then after (trim_cols 7 to_trim dat) (\<lambda>dat'. Inr (m\<lparr>data := dat'\<rparr>))
                   else Inr m1))"


section \<open>TrajMemoryTMNF and TrajMemoryTMNFLidar\<close>

record 'v traj_memory_tmnf = "'v memory_tmnf" +
  traj_len :: int

definition TrajMemoryTMNF_init :: "int \<Rightarrow> int \<Rightarrow> int \<Rightarrow> int \<Rightarrow> 'v traj_memory_tmnf" where
  \<comment> \<open>\<^verbatim>\<open>TrajMemoryTMNF(memory_size, imgs_obs=.., act_buf_len=.., traj_len=..)\<close>\<close>
  "TrajMemoryTMNF_init msize io abl tlen =
     (let ms = max io abl + (tlen - 1) in
      \<lparr>imgs_obs = io, act_buf_len = abl, min_samples = ms,
       start_imgs_offset = max 0 (ms - io), start_acts_offset = max 0 (ms - abl),
       memory_size = msize, data = [], traj_len = tlen\<rparr>)"

definition load_imgs_traj :: "'v traj_memory_tmnf \<Rightarrow> int \<Rightarrow> error + 'v pyobj list" where
  "load_imgs_traj tm item =
     after (py_index (data tm) 3) (\<lambda>c.
       np_stack (py_slice c (item + start_imgs_offset tm)
                            (item + start_imgs_offset tm + imgs_obs tm + traj_len tm)))"

definition load_acts_traj :: "'v traj_memory_tmnf \<Rightarrow> int \<Rightarrow> error + 'v pyobj list" where
  "load_acts_traj tm item =
     after (py_index (data tm) 1) (\<lambda>c.
       Inr (py_slice c (item + start_acts_offset tm)
                       (item + start_acts_offset tm + act_buf_len tm + traj_len tm)))"

text \<open>A list comprehension whose body may raise: the first exception ends it.\<close>

fun for_each :: "('a \<Rightarrow> error + 'b) \<Rightarrow> 'a list \<Rightarrow> error + 'b list" where
  "for_each f [] = Inr []"
| "for_each f (x # xs) = after (f x) (\<lambda>y. after (for_each f xs) (\<lambda>ys. Inr (y # ys)))"

definition py_range :: "int \<Rightarrow> int list" where
  \<comment> \<open>\<^verbatim>\<open>range(n)\<close>\<close>
  "py_range n = map int [0..<nat n]"

text \<open>
  What \<^verbatim>\<open>get_trajectory\<close> returns:
  \<^verbatim>\<open>augm_obs_traj, rew_traj, done_traj, info_traj\<close>.
\<close>

type_synonym 'v trajectory =
  "'v observation list \<times> 'v pyobj list \<times> 'v pyobj list \<times> 'v pyobj list"

definition get_trajectory ::
  "('v pyobj \<Rightarrow> 'v pyobj) \<Rightarrow> 'v traj_memory_tmnf \<Rightarrow> int \<Rightarrow> error + 'v trajectory" where
  "get_trajectory f32 tm item =
     (let idx_now = item + min_samples tm
      in after (load_acts_traj tm item) (\<lambda>all_acts.
         after (load_imgs_traj tm item) (\<lambda>all_imgs.
         after (for_each (\<lambda>i. after (field tm 5 (idx_now + i)) (\<lambda>r. Inr (f32 r)))
                  (py_range (traj_len tm))) (\<lambda>rew_traj.
         after (for_each (\<lambda>i. after (field tm 2 (idx_now + i)) (\<lambda>speed.
                    Inr (speed,
                         py_slice all_imgs (1 + i) (imgs_obs tm + i + 1),
                         py_slice all_acts (1 + i) (act_buf_len tm + i + 1))))
                  (py_range (traj_len tm))) (\<lambda>augm_obs_traj.
         after (for_each (\<lambda>i. field tm 4 (idx_now + i)) (py_range (traj_len tm)))
           (\<lambda>done_traj.
         after (for_each (\<lambda>i. field tm 6 (idx_now + i)) (py_range (traj_len tm)))
           (\<lambda>info_traj.
             Inr (augm_obs_traj, rew_traj, done_traj, info_traj))))))))"

section \<open>MemoryTM2020 and MemoryCognifly\<close>

text \<open>
  Both classes set the same fields as \<^verbatim>\<open>MemoryTMNF\<close>. Their \<^verbatim>\<open>__len__\<close>
  compares \<^verbatim>\<open>len(self.data)\<close>, the number of columns, with
  \<^verbatim>\<open>self.min_samples + 1\<close>.
\<close>

definition TM2020_len :: "'v memory_tmnf \<Rightarrow> error + int" where
  \<comment> \<open>\<^verbatim>\<open>MemoryTM2020.__len__\<close>\<close>
  "TM2020_len m =
     (if int (length (data m)) < min_samples m + 1 then Inr 0
      else after (py_index (data m) 0) (\<lambda>c.
        let res = int (length c) - min_samples m - 1
        in if res < 0 then Inr 0 else Inr res))"

definition Cognifly_len :: "'v memory_tmnf \<Rightarrow> error + int" where
  \<comment> \<open>\<^verbatim>\<open>MemoryCognifly.__len__\<close>\<close>
  "Cognifly_len m =
     (if int (length (data m)) < min_samples m + 1 then Inr 0
      else after (py_index (data m) 0) (\<lambda>c.
        let res = int (length c) - min_samples m - 1
        in if res < 0 then Inr 0 else Inr res))"

text \<open>
  \<^verbatim>\<open>(first_data_idx + i) % self.memory_size\<close> for the rows of a buffer of \<open>n\<close> samples.
  Python's \<^verbatim>\<open>%\<close> takes the sign of the divisor, as \<open>mod\<close> on \<open>int\<close> does, and raises
  on a zero divisor.
\<close>

definition wrapped_indexes :: "int \<Rightarrow> int \<Rightarrow> nat \<Rightarrow> error + 'v pyobj list" where
  "wrapped_indexes first_data_idx msize n =
     for_each (\<lambda>i. if msize = 0 then Inl ZeroDivisionError
                    else Inr (PyInt ((first_data_idx + int i) mod msize))) [0..<n]"

text \<open>A sample of \<^verbatim>\<open>MemoryTM2020\<close>: \<^verbatim>\<open>(act, (speed, gear, rpm, img), rew, done, info)\<close>.\<close>

type_synonym 'v sample_tm20 =
  "'v pyobj \<times> ('v pyobj \<times> 'v pyobj \<times> 'v pyobj \<times> 'v pyobj) \<times> 'v pyobj \<times> 'v pyobj \<times> 'v pyobj"

text \<open>
  \<^verbatim>\<open>MemoryTM2020.append_buffer\<close>. The images are written to files named by the index
  (\<^verbatim>\<open>cv2.imwrite\<close>); the files are outside this model.
\<close>

definition TM2020_append_buffer ::
  "'v sample_tm20 list \<Rightarrow> 'v memory_tmnf \<Rightarrow> error + 'v memory_tmnf" where
  "TM2020_append_buffer buffer m =
     after (TM2020_len m) (\<lambda>len0.
     after (if 0 < len0 then after (field m 0 (- 1)) py_succ else Inr 0)
       (\<lambda>first_data_idx.
     after (wrapped_indexes first_data_idx (memory_size m) (length buffer)) (\<lambda>d0.
         let d1 = map (\<lambda>(act, (speed, gear, rpm, img), rew, dn, info). act) buffer;
             d2 = map (\<lambda>(act, (speed, gear, rpm, img), rew, dn, info). speed) buffer;
             d3 = map (\<lambda>(act, (speed, gear, rpm, img), rew, dn, info). gear) buffer;
             d4 = map (\<lambda>(act, (speed, gear, rpm, img), rew, dn, info). rpm) buffer;
             d5 = map (\<lambda>(act, (speed, gear, rpm, img), rew, dn, info). dn) buffer;
             d6 = map (\<lambda>(act, (speed, gear, rpm, img), rew, dn, info). rew) buffer;
             d7 = map (\<lambda>(act, (speed, gear, rpm, img), rew, dn, info). info) buffer
         in after (TM2020_len m) (\<lambda>len1.
            after (if 0 < len1
                   then extend_cols (data m) [d0, d1, d2, d3, d4, d5, d6, d7]
                   else Inr (data m @ [d0, d1, d2, d3, d4, d5, d6, d7]))
              (\<lambda>dat.
                let m1 = m\<lparr>data := dat\<rparr>
                in after (TM2020_len m1) (\<lambda>len2.
                   let to_trim = len2 - memory_size m
                   in if 0 < to_trim
                      then after (trim_cols 8 to_trim dat) (\<lambda>dat'. Inr (m\<lparr>data := dat'\<rparr>))
                      else Inr m1))))))"

text \<open>
  A sample of \<^verbatim>\<open>MemoryCognifly\<close>:
  \<^verbatim>\<open>(act, (alt, vel, acc, tar, del, del_k), rew, done, info)\<close>.
\<close>

type_synonym 'v sample_cognifly =
  "'v pyobj \<times> ('v pyobj \<times> 'v pyobj \<times> 'v pyobj \<times> 'v pyobj \<times> 'v pyobj \<times> 'v pyobj)
    \<times> 'v pyobj \<times> 'v pyobj \<times> 'v pyobj"

definition Cognifly_append_buffer ::
  "'v sample_cognifly list \<Rightarrow> 'v memory_tmnf \<Rightarrow> error + 'v memory_tmnf" where
  "Cognifly_append_buffer buffer m =
     after (Cognifly_len m) (\<lambda>len0.
     after (if 0 < len0 then after (field m 0 (- 1)) py_succ else Inr 0)
       (\<lambda>first_data_idx.
     after (wrapped_indexes first_data_idx (memory_size m) (length buffer)) (\<lambda>d0.
         let d1 = map (\<lambda>(act, (alt, vel, acc, tar, dl, dl_k), rew, dn, info). act) buffer;
             d2 = map (\<lambda>(act, (alt, vel, acc, tar, dl, dl_k), rew, dn, info). alt) buffer;
             d3 = map (\<lambda>(act, (alt, vel, acc, tar, dl, dl_k), rew, dn, info). vel) buffer;
             d4 = map (\<lambda>(act, (alt, vel, acc, tar, dl, dl_k), rew, dn, info). acc) buffer;
             d5 = map (\<lambda>(act, (alt, vel, acc, tar, dl, dl_k), rew, dn, info). tar) buffer;
             d6 = map (\<lambda>(act, (alt, vel, acc, tar, dl, dl_k), rew, dn, info). dl) buffer;
             d7 = map (\<lambda>(act, (alt, vel, acc, tar, dl, dl_k), rew, dn, info). dl_k) buffer;
             d8 = map (\<lambda>(act, (alt, vel, acc, tar, dl, dl_k), rew, dn, info). dn) buffer;
             d9 = map (\<lambda>(act, (alt, vel, acc, tar, dl, dl_k), rew, dn, info). rew) buffer;
             d10 = map (\<lambda>(act, (alt, vel, acc, tar, dl, dl_k), rew, dn, info). info) buffer
         in after (Cognifly_len m) (\<lambda>len1.
            after (if 0 < len1
                   then extend_cols (data m) [d0, d1, d2, d3, d4, d5, d6, d7, d8, d9, d10]
                   else Inr (data m @ [d0, d1, d2, d3, d4, d5, d6, d7, d8, d9, d10]))
              (\<lambda>dat.
                let m1 = m\<lparr>data := dat\<rparr>
                in after (Cognifly_len m1) (\<lambda>len2.
                   let to_trim = len2 - memory_size m
                   in if 0 < to_trim
                      then after (trim_cols 11 to_trim dat) (\<lambda>dat'. Inr (m\<lparr>data := dat'\<rparr>))
                      else Inr m1))))))"

section \<open>Well-formed stores and test data\<close>

text \<open>
  A memory is \<open>configured\<close> when its derived fields are the ones \<^verbatim>\<open>__init__\<close> computes
  from non-negative history lengths (for a trajectory memory, with \<^verbatim>\<open>traj_len = 1\<close>).
\<close>

definition configured :: "('v, 'z) memory_tmnf_scheme \<Rightarrow> bool" where
  "configured m =
     (0 \<le> imgs_obs m \<and> 0 \<le> act_buf_len m \<and>
      min_samples m = max (imgs_obs m) (act_buf_len m) \<and>
      start_imgs_offset m = max 0 (min_samples m - imgs_obs m) \<and>
      start_acts_offset m = max 0 (min_samples m - act_buf_len m))"

text \<open>The store holds exactly the seven columns of the lidar memories, each of \<open>n\<close> rows.\<close>

definition aligned :: "('v, 'z) memory_tmnf_scheme \<Rightarrow> nat \<Rightarrow> bool" where
  "aligned m n = (length (data m) = 7 \<and> list_all (\<lambda>c. length c = n) (data m))"

text \<open>The \<open>k\<close> contiguous elements of \<open>xs\<close> that start at position \<open>start\<close>.\<close>

definition window :: "'a list \<Rightarrow> int \<Rightarrow> int \<Rightarrow> 'a list" where
  "window xs start k = take (nat k) (drop (nat start) xs)"

text \<open>The index column of \<open>n\<close> rows numbered from \<open>j\<close> without a gap.\<close>

definition index_run :: "int \<Rightarrow> nat \<Rightarrow> 'v pyobj list" where
  "index_run j n = map (\<lambda>i. PyInt (j + int i)) [0..<n]"

text \<open>
  Samples whose payloads name the column they are stored in and their position in the
  stream, so that a result shows which stored rows it was read from.
\<close>

definition labelled_sample :: "nat \<Rightarrow> (nat \<times> nat) sample" where
  "labelled_sample i =
     (PyObj (1, i), (PyObj (2, i), PyObj (3, i)), PyObj (5, i), PyObj (4, i), PyObj (6, i))"

definition labelled_buffer :: "nat \<Rightarrow> nat \<Rightarrow> (nat \<times> nat) sample list" where
  "labelled_buffer a n = map labelled_sample [a..<a + n]"

definition labelled_store :: "nat \<Rightarrow> (nat \<times> nat) pyobj list list" where
  "labelled_store n =
     index_run 0 n # map (\<lambda>k. map (\<lambda>i. PyObj (k, i)) [0..<n]) [1, 2, 3, 4, 5, 6]"

definition labelled_sample_tm20 :: "nat \<Rightarrow> (nat \<times> nat) sample_tm20" where
  "labelled_sample_tm20 i =
     (PyObj (1, i), (PyObj (2, i), PyObj (3, i), PyObj (4, i), PyObj (8, i)),
      PyObj (6, i), PyObj (5, i), PyObj (7, i))"

definition stored :: "int \<Rightarrow> int \<Rightarrow> int \<Rightarrow> nat \<Rightarrow> (nat \<times> nat) memory_tmnf" where
  \<comment> \<open>a lidar memory that holds the first \<open>n\<close> labelled samples\<close>
  "stored msize io abl n = (MemoryTMNF_init msize io abl)\<lparr>data := labelled_store n\<rparr>"

text \<open>Column \<open>i\<close> of the store, with no rows while no column exists.\<close>

definition column :: "('v, 'z) memory_tmnf_scheme \<Rightarrow> nat \<Rightarrow> 'v pyobj list" where
  "column m i = (if data m = [] then [] else data m ! i)"

text \<open>
  The states in which \<^verbatim>\<open>append_buffer\<close> extends the stored columns: no column exists
  yet, or the seven columns hold \<open>n\<close> rows numbered from \<open>j\<close> and the length is positive.
\<close>

definition holds_rows :: "'v memory_tmnf \<Rightarrow> int \<Rightarrow> nat \<Rightarrow> bool" where
  "holds_rows m j n =
     (if data m = [] then j = 0 \<and> n = 0
      else aligned m n \<and> 0 < TMNF_len m \<and> data m ! 0 = index_run j n)"

text \<open>The number of rows \<^verbatim>\<open>append_buffer\<close> cuts off a store that has grown to \<open>rows\<close> rows.\<close>

definition trimmed :: "('v, 'z) memory_tmnf_scheme \<Rightarrow> nat \<Rightarrow> nat" where
  "trimmed m rows = nat (max 0 (int rows - min_samples m - 1) - memory_size m)"

text \<open>The seven columns with the rows of a buffer added at their end.\<close>

definition appended ::
  "'v memory_tmnf \<Rightarrow> int \<Rightarrow> nat \<Rightarrow> 'v sample list \<Rightarrow> 'v pyobj list list" where
  "appended m j n buffer =
     [index_run j (n + length buffer),
      column m 1 @ map (\<lambda>(act, (speed, lidar), rew, dn, info). act) buffer,
      column m 2 @ map (\<lambda>(act, (speed, lidar), rew, dn, info). speed) buffer,
      column m 3 @ map (\<lambda>(act, (speed, lidar), rew, dn, info). lidar) buffer,
      column m 4 @ map (\<lambda>(act, (speed, lidar), rew, dn, info). dn) buffer,
      column m 5 @ map (\<lambda>(act, (speed, lidar), rew, dn, info). rew) buffer,
      column m 6 @ map (\<lambda>(act, (speed, lidar), rew, dn, info). info) buffer]"

text \<open>
  The ten labelled rows with another speed in row 5, the row of \<open>idx_last\<close> for item 2
  when \<open>min_samples = 4\<close>.
\<close>

definition other_store :: "(nat \<times> nat) pyobj list list" where
  "other_store = (labelled_store 10)[2 := (labelled_store 10 ! 2)[5 := PyObj (0, 0)]]"

text \<open>
  \<^verbatim>\<open>MemoryTM2020.__init__\<close> and \<^verbatim>\<open>MemoryCognifly.__init__\<close> compute the same fields as
  \<^verbatim>\<open>MemoryTMNF.__init__\<close>.
\<close>

definition MemoryTM2020_init :: "int \<Rightarrow> int \<Rightarrow> int \<Rightarrow> 'v memory_tmnf" where
  "MemoryTM2020_init msize io abl =
     (let ms = max io abl in
      \<lparr>imgs_obs = io, act_buf_len = abl, min_samples = ms,
       start_imgs_offset = max 0 (ms - io), start_acts_offset = max 0 (ms - abl),
       memory_size = msize, data = []\<rparr>)"

definition MemoryCognifly_init :: "int \<Rightarrow> int \<Rightarrow> int \<Rightarrow> 'v memory_tmnf" where
  "MemoryCognifly_init msize io abl =
     (let ms = max io abl in
      \<lparr>imgs_obs = io, act_buf_len = abl, min_samples = ms,
       start_imgs_offset = max 0 (ms - io), start_acts_offset = max 0 (ms - abl),
       memory_size = msize, data = []\<rparr>)"

definition labelled_sample_cognifly :: "nat \<Rightarrow> (nat \<times> nat) sample_cognifly" where
  "labelled_sample_cognifly i =
     (PyObj (1, i),
      (PyObj (2, i), PyObj (3, i), PyObj (4, i), PyObj (5, i), PyObj (6, i), PyObj (7, i)),
      PyObj (9, i), PyObj (8, i), PyObj (10, i))"

text \<open>The number of columns and the length of a memory, when no exception was raised.\<close>

definition columns_and_len ::
  "('v memory_tmnf \<Rightarrow> error + int) \<Rightarrow> error + 'v memory_tmnf \<Rightarrow> error + nat \<times> int" where
  "columns_and_len len r = after r (\<lambda>m. after (len m) (\<lambda>l. Inr (length (data m), l)))"

section \<open>Python's division of integers\<close>

text \<open>
  \<^verbatim>\<open>a / b\<close> on two Python integers is the quotient rounded correctly to the nearest
  IEEE 754 double, ties to the even significand; it raises ZeroDivisionError on a zero
  divisor and OverflowError when the rounded quotient is beyond the doubles. A finite
  double is the rational number it denotes, and Python compares floats (and floats with
  integers) by these values, so the model keeps floats as rationals.
\<close>

definition round_half_even :: "rat \<Rightarrow> int" where
  "round_half_even x =
     (let f = \<lfloor>x\<rfloor>; d = x - of_int f
      in if d < 1 / 2 then f else if 1 / 2 < d then f + 1 else if even f then f else f + 1)"

definition binade :: "rat \<Rightarrow> int" where
  \<comment> \<open>the exponent \<open>e\<close> with \<open>2 powi e \<le> x < 2 powi (e + 1)\<close>, for positive \<open>x\<close>\<close>
  "binade x =
     (let (a, b) = quotient_of x; d = bitlen a - bitlen b
      in if 2 powi d \<le> x then d else d - 1)"

definition round_double :: "rat \<Rightarrow> rat" where
  \<comment> \<open>the nearest double of a non-negative rational: 53 bits of significand, and steps of
      \<open>2 powi (- 1074)\<close> below \<open>2 powi (- 1022)\<close>\<close>
  "round_double x =
     (if x = 0 then 0
      else let q = 2 powi (max (binade x) (- 1022) - 52)
           in of_int (round_half_even (x / q)) * q)"

definition float_div :: "int \<Rightarrow> int \<Rightarrow> error + rat" where
  "float_div a b =
     (if b = 0 then Inl ZeroDivisionError
      else let x = of_int a / of_int b; r = round_double \<bar>x\<bar>
           in if 2 powi 1024 \<le> r then Inl OverflowError
              else Inr (if x < 0 then - r else r))"

section \<open>TrainingOffline\<close>

text \<open>
  The counters of \<^verbatim>\<open>tmrl/training_offline.py\<close>, the memory, and the two settings the
  pacing reads. The class of the memory is a parameter of \<^verbatim>\<open>TrainingOffline\<close>, so the
  model takes the memory's \<^verbatim>\<open>append\<close> as a parameter \<open>app\<close>. A buffer is the list of its
  samples and \<^verbatim>\<open>len(buffer)\<close> the length of that list. The bound
  \<^verbatim>\<open>max_training_steps_per_env_step\<close> is a finite float.

  Three fields are bookkeeping of the model and not of the code: \<open>sleeps\<close> counts the calls
  of \<^verbatim>\<open>time.sleep\<close>, \<open>broadcasts\<close> those of \<^verbatim>\<open>broadcast_model\<close>, and \<open>observed\<close> records the
  counters \<open>(total_updates, total_samples)\<close> before each training step and after it.
\<close>

datatype point = Before_step | After_step

record 'm trainer =
  memory :: 'm
  epoch :: int
  total_samples :: int
  total_updates :: int
  max_training_steps_per_env_step :: rat
  update_model_interval :: int
  sleeps :: nat
  broadcasts :: nat
  observed :: "(point \<times> int \<times> int) list"

text \<open>
  How a call ends: it returns, it raises, or it is still waiting for samples when the
  buffers the interface is known to deliver are used up.
\<close>

datatype 'a run = Returned 'a | Raised error | Awaiting 'a

definition update_buffer ::
  "('s list \<Rightarrow> 'm \<Rightarrow> error + 'm) \<Rightarrow> 's list \<Rightarrow> 'm trainer \<Rightarrow> error + 'm trainer" where
  \<comment> \<open>\<open>buffer\<close> is what \<^verbatim>\<open>interface.retrieve_buffer()\<close> returned\<close>
  "update_buffer app buffer t =
     after (app buffer (memory t)) (\<lambda>mem.
       Inr (t\<lparr>memory := mem, total_samples := total_samples t + int (length buffer)\<rparr>))"

definition ratio :: "'m trainer \<Rightarrow> error + rat" where
  \<comment> \<open>\<^verbatim>\<open>self.total_updates / self.total_samples if self.total_samples > 0.0 else -1.0\<close>\<close>
  "ratio t =
     (if 0 < total_samples t then float_div (total_updates t) (total_samples t)
      else Inr (- 1))"

definition waiting :: "'m trainer \<Rightarrow> error + bool" where
  \<comment> \<open>the ratio, and the test
      \<^verbatim>\<open>ratio > self.max_training_steps_per_env_step or ratio == -1.0\<close> on it\<close>
  "waiting t =
     after (ratio t) (\<lambda>r. Inr (max_training_steps_per_env_step t < r \<or> r = - 1))"

text \<open>
  The \<^verbatim>\<open>while\<close> loop of \<^verbatim>\<open>check_ratio\<close>; \<open>bufs\<close> are the buffers that the coming calls
  of \<^verbatim>\<open>retrieve_buffer\<close> return, in order. The loop is entered after its test was found
  true, and the test at its head reads the local variable \<^verbatim>\<open>ratio\<close> that the body has
  just computed: the body runs, and runs again exactly when the test on the new ratio is
  true, after the sleep.
\<close>

fun polling ::
  "('s list \<Rightarrow> 'm \<Rightarrow> error + 'm) \<Rightarrow> 's list list \<Rightarrow> 'm trainer
     \<Rightarrow> ('m trainer \<times> 's list list) run" where
  "polling app [] t = Awaiting (t, [])"
| "polling app (buffer # rest) t =
     (case update_buffer app buffer t of
        Inl e \<Rightarrow> Raised e
      | Inr t' \<Rightarrow>
          (case waiting t' of
             Inl e \<Rightarrow> Raised e
           | Inr w \<Rightarrow>
               if w then polling app rest (t'\<lparr>sleeps := Suc (sleeps t')\<rparr>)
               else Returned (t', rest)))"

definition check_ratio ::
  "('s list \<Rightarrow> 'm \<Rightarrow> error + 'm) \<Rightarrow> 's list list \<Rightarrow> 'm trainer
     \<Rightarrow> ('m trainer \<times> 's list list) run" where
  "check_ratio app bufs t =
     (case waiting t of
        Inl e \<Rightarrow> Raised e
      | Inr w \<Rightarrow> if w then polling app bufs t else Returned (t, bufs))"

definition observe :: "point \<Rightarrow> 'm trainer \<Rightarrow> 'm trainer" where
  "observe p t = t\<lparr>observed := observed t @ [(p, total_updates t, total_samples t)]\<rparr>"

text \<open>
  The body of \<^verbatim>\<open>for batch in self.memory\<close>, for the \<open>n\<close> batches that the iteration
  yields: the training step (of the agent, outside this model), the count, the broadcast
  every \<^verbatim>\<open>update_model_interval\<close> updates, and \<^verbatim>\<open>check_ratio\<close>.
\<close>

fun train_batches ::
  "('s list \<Rightarrow> 'm \<Rightarrow> error + 'm) \<Rightarrow> nat \<Rightarrow> 's list list \<Rightarrow> 'm trainer
     \<Rightarrow> ('m trainer \<times> 's list list) run" where
  "train_batches app 0 bufs t = Returned (t, bufs)"
| "train_batches app (Suc n) bufs t =
     (let t1 = observe Before_step t;
          t2 = t1\<lparr>total_updates := total_updates t1 + 1\<rparr>;
          t3 = observe After_step t2
      in if update_model_interval t3 = 0 then Raised ZeroDivisionError
         else let t4 = (if total_updates t3 mod update_model_interval t3 = 0
                        then t3\<lparr>broadcasts := Suc (broadcasts t3)\<rparr> else t3)
              in case check_ratio app bufs t4 of
                   Returned (t5, rest) \<Rightarrow> train_batches app n rest t5
                 | Raised e \<Rightarrow> Raised e
                 | Awaiting x \<Rightarrow> Awaiting x)"

text \<open>One round of \<^verbatim>\<open>run_epoch\<close>: the check, one retrieval, the batches.\<close>

definition run_round ::
  "('s list \<Rightarrow> 'm \<Rightarrow> error + 'm) \<Rightarrow> nat \<Rightarrow> 's list list \<Rightarrow> 'm trainer
     \<Rightarrow> ('m trainer \<times> 's list list) run" where
  "run_round app n bufs t =
     (case check_ratio app bufs t of
        Returned (t1, rest) \<Rightarrow>
          (case rest of
             [] \<Rightarrow> Awaiting (t1, [])
           | buffer # rest' \<Rightarrow>
               (case update_buffer app buffer t1 of
                  Inl e \<Rightarrow> Raised e
                | Inr t2 \<Rightarrow> train_batches app n rest' t2))
      | Raised e \<Rightarrow> Raised e
      | Awaiting x \<Rightarrow> Awaiting x)"

fun run_rounds ::
  "('s list \<Rightarrow> 'm \<Rightarrow> error + 'm) \<Rightarrow> nat \<Rightarrow> nat \<Rightarrow> 's list list \<Rightarrow> 'm trainer
     \<Rightarrow> ('m trainer \<times> 's list list) run" where
  "run_rounds app 0 n bufs t = Returned (t, bufs)"
| "run_rounds app (Suc rounds) n bufs t =
     (case run_round app n bufs t of
        Returned (t', rest) \<Rightarrow> run_rounds app rounds n rest t'
      | Raised e \<Rightarrow> Raised e
      | Awaiting x \<Rightarrow> Awaiting x)"

definition run_epoch ::
  "('s list \<Rightarrow> 'm \<Rightarrow> error + 'm) \<Rightarrow> nat \<Rightarrow> nat \<Rightarrow> 's list list \<Rightarrow> 'm trainer
     \<Rightarrow> ('m trainer \<times> 's list list) run" where
  "run_epoch app rounds n bufs t =
     (case run_rounds app rounds n bufs t of
        Returned (t', rest) \<Rightarrow> Returned (t'\<lparr>epoch := epoch t' + 1\<rparr>, rest)
      | Raised e \<Rightarrow> Raised e
      | Awaiting x \<Rightarrow> Awaiting x)"

text \<open>
  With \<open>u\<close> updates and \<open>s\<close> samples the code does not wait: there are samples, and the
  ratio that Python computes is at most the bound \<open>b\<close>.
\<close>

definition in_bound :: "rat \<Rightarrow> int \<Rightarrow> int \<Rightarrow> bool" where
  "in_bound b u s =
     (0 < s \<and> (case float_div u s of Inl e \<Rightarrow> False | Inr q \<Rightarrow> q \<le> b \<and> q \<noteq> - 1))"

text \<open>
  The pacing at the recorded observation points: before a training step the computed
  ratio is within the bound; after it the counters are one update above counters whose
  computed ratio is within the bound.
\<close>

definition paced :: "rat \<Rightarrow> point \<times> int \<times> int \<Rightarrow> bool" where
  "paced b obs =
     (case obs of
        (Before_step, u, s) \<Rightarrow> in_bound b u s
      | (After_step, u, s) \<Rightarrow> in_bound b (u - 1) s)"

text \<open>The samples that the first \<open>k\<close> buffers bring.\<close>

definition delivered :: "'s list list \<Rightarrow> nat \<Rightarrow> int" where
  "delivered bufs k = int (sum_list (map length (take k bufs)))"

text \<open>
  Modelled from the spec: \<^verbatim>\<open>MemoryDataloading.append\<close>, the method that
  \<^verbatim>\<open>update_buffer\<close> calls, is in \<^verbatim>\<open>tmrl/memory_dataloading.py\<close>, which is not among the
  sources. By section 4.3 of the specification, appending a buffer to the memory is the
  index computation, the bulk append and the trim, which is what \<^verbatim>\<open>append_buffer\<close> does.
\<close>

definition MemoryDataloading_append ::
  "'v sample list \<Rightarrow> 'v memory_tmnf \<Rightarrow> error + 'v memory_tmnf" where
  "MemoryDataloading_append buffer m = append_buffer buffer m"

text \<open>
  The stores on which an append cannot raise and that respect the bound of the length:
  when the length is positive there are at least seven columns and the last stored index
  is an integer.
\<close>

definition sound_store :: "'v memory_tmnf \<Rightarrow> bool" where
  "sound_store m =
     (0 \<le> min_samples m \<and> TMNF_len m \<le> memory_size m \<and>
      (if 0 < TMNF_len m
       then 7 \<le> length (data m) \<and> (case last (data m ! 0) of PyInt k \<Rightarrow> True | PyObj x \<Rightarrow> False)
       else True))"

text \<open>
  The state in which a run stopped, when it returned or is still waiting for samples.
\<close>

definition final_state :: "('m trainer \<times> 'b) run \<Rightarrow> 'm trainer option" where
  "final_state r =
     (case r of Returned (t, rest) \<Rightarrow> Some t | Raised e \<Rightarrow> None | Awaiting (t, rest) \<Rightarrow> Some t)"

text \<open>No update was ever undone, and every recorded observation is paced.\<close>

definition on_pace :: "'m trainer \<Rightarrow> bool" where
  "on_pace t =
     (0 \<le> total_updates t \<and>
      list_all (paced (max_training_steps_per_env_step t)) (observed t))"

text \<open>
  A trainer with the given counters, the bound 1.0 and a broadcast every 100 updates, on
  a memory without content, whose \<^verbatim>\<open>append\<close> stores nothing.
\<close>

definition example_trainer :: "int \<Rightarrow> int \<Rightarrow> unit trainer" where
  "example_trainer updates samples =
     \<lparr>memory = (), epoch = 0, total_samples = samples, total_updates = updates,
      max_training_steps_per_env_step = 1, update_model_interval = 100,
      sleeps = 0, broadcasts = 0, observed = []\<rparr>"

definition no_memory :: "nat list \<Rightarrow> unit \<Rightarrow> error + unit" where
  "no_memory buffer m = Inr m"

text \<open>
  A trainer on a lidar memory with ten stored rows, one update ahead of its samples.
\<close>

definition lidar_trainer :: "(nat \<times> nat) memory_tmnf trainer" where
  "lidar_trainer =
     \<lparr>memory = stored 100 4 1 10, epoch = 0, total_samples = 10, total_updates = 11,
      max_training_steps_per_env_step = 1, update_model_interval = 100,
      sleeps = 0, broadcasts = 0, observed = []\<rparr>"

lemma after_Inr [simp]: "after (Inr x) f = f x"
  by (simp add: after_def)

lemma after_Inl [simp]: "after (Inl e) f = Inl e"
  by (simp add: after_def)

lemma py_index_in_range:
  "0 \<le> i \<Longrightarrow> i < int (length xs) \<Longrightarrow> py_index xs i = Inr (xs ! nat i)"
  by (simp add: py_index_def)

lemma py_index_beyond:
  "int (length xs) \<le> i \<Longrightarrow> py_index xs i = Inl IndexError"
  by (simp add: py_index_def Let_def)

lemma py_slice_window:
  "0 \<le> a \<Longrightarrow> 0 \<le> k \<Longrightarrow> a + k \<le> int (length xs) \<Longrightarrow>
   py_slice xs a (a + k) = window xs a k"
  by (auto simp add: py_slice_def py_bound_def window_def Let_def min_def nat_add_distrib)

lemma py_slice_to_butlast: "py_slice_to xs (- 1) = butlast xs"
  by (cases xs rule: rev_cases) (simp_all add: py_slice_to_def py_bound_def)

lemma py_slice_from_tl: "py_slice_from xs 1 = tl xs"
  by (cases xs) (simp_all add: py_slice_from_def py_bound_def)

lemma aligned_column:
  "aligned m n \<Longrightarrow> k < 7 \<Longrightarrow> length (data m ! k) = n"
  by (simp add: aligned_def list_all_length)

lemma field_in_range:
  "aligned m n \<Longrightarrow> 0 \<le> k \<Longrightarrow> k < 7 \<Longrightarrow> 0 \<le> i \<Longrightarrow> i < int n \<Longrightarrow>
   field m k i = Inr (data m ! nat k ! nat i)"
  by (simp add: field_def py_index_in_range aligned_def list_all_length)

lemma field_beyond:
  "aligned m n \<Longrightarrow> 0 \<le> k \<Longrightarrow> k < 7 \<Longrightarrow> int n \<le> i \<Longrightarrow> field m k i = Inl IndexError"
  by (simp add: field_def py_index_in_range py_index_beyond aligned_def list_all_length)

lemma TMNF_len_aligned:
  "aligned m n \<Longrightarrow> TMNF_len m = max 0 (int n - min_samples m - 1)"
  by (auto simp add: TMNF_len_def aligned_def list_all_length Let_def)

lemma length_window:
  "0 \<le> a \<Longrightarrow> 0 \<le> k \<Longrightarrow> a + k \<le> int (length xs) \<Longrightarrow> length (window xs a k) = nat k"
  by (simp add: window_def)

lemma load_acts_valid:
  assumes "configured m" "aligned m n" "0 \<le> item" "item < TMNF_len m"
  shows "load_acts m item =
           Inr (window (data m ! 1) (item + start_acts_offset m) (act_buf_len m + 1))"
proof -
  have n: "item + min_samples m + 1 < int n"
    using assms by (simp add: TMNF_len_aligned)
  have len: "length (data m ! 1) = n" "length (data m) = 7"
    using assms(2) by (simp_all add: aligned_def list_all_length)
  have b: "0 \<le> item + start_acts_offset m"
      "item + start_acts_offset m + act_buf_len m + 1 \<le> int n"
    using assms(1,3) n by (auto simp: configured_def)
  have "py_slice (data m ! 1) (item + start_acts_offset m)
          (item + start_acts_offset m + act_buf_len m + 1)
        = window (data m ! 1) (item + start_acts_offset m) (act_buf_len m + 1)"
    using b assms(1) len
      py_slice_window[of "item + start_acts_offset m" "act_buf_len m + 1" "data m ! 1"]
    by (simp add: configured_def add.assoc)
  then show ?thesis
    using len by (simp add: load_acts_def py_index_in_range)
qed

lemma load_imgs_valid:
  assumes "configured m" "aligned m n" "0 \<le> item" "item < TMNF_len m"
  shows "load_imgs m item =
           Inr (window (data m ! 3) (item + start_imgs_offset m) (imgs_obs m + 1))"
proof -
  have n: "item + min_samples m + 1 < int n"
    using assms by (simp add: TMNF_len_aligned)
  have len: "length (data m ! 3) = n" "length (data m) = 7"
    using assms(2) by (simp_all add: aligned_def list_all_length)
  have b: "0 \<le> item + start_imgs_offset m"
      "item + start_imgs_offset m + imgs_obs m + 1 \<le> int n"
    using assms(1,3) n by (auto simp: configured_def)
  have w: "py_slice (data m ! 3) (item + start_imgs_offset m)
          (item + start_imgs_offset m + imgs_obs m + 1)
        = window (data m ! 3) (item + start_imgs_offset m) (imgs_obs m + 1)"
    using b assms(1) len
      py_slice_window[of "item + start_imgs_offset m" "imgs_obs m + 1" "data m ! 3"]
    by (simp add: configured_def add.assoc)
  have "length (window (data m ! 3) (item + start_imgs_offset m) (imgs_obs m + 1))
          = nat (imgs_obs m + 1)"
    using b assms(1) len by (intro length_window) (auto simp: configured_def)
  then have "window (data m ! 3) (item + start_imgs_offset m) (imgs_obs m + 1) \<noteq> []"
    using assms(1) by (auto simp: configured_def)
  then show ?thesis
    using len w by (simp add: load_imgs_def py_index_in_range np_stack_def)
qed

lemma py_index_wrapping:
  "- int (length xs) \<le> i \<Longrightarrow> i < int (length xs) \<Longrightarrow> \<exists>x. py_index xs i = Inr x"
  by (simp add: py_index_def Let_def)

lemma field_idx_last:
  assumes "aligned m n" and "0 \<le> min_samples m" and "0 \<le> item"
    and "item + min_samples m + 1 < int n"
  shows "\<exists>x. field m 2 (item + min_samples m - 1) = Inr x
           \<and> (1 \<le> min_samples m \<longrightarrow> x = data m ! 2 ! nat (item + min_samples m - 1))"
proof (cases "1 \<le> min_samples m")
  case True
  then show ?thesis
    using field_in_range[OF assms(1), of 2 "item + min_samples m - 1"] assms by simp
next
  case False
  have len: "length (data m ! 2) = n" "length (data m) = 7"
    using assms(1) by (simp_all add: aligned_def list_all_length)
  have "\<exists>x. py_index (data m ! 2) (item + min_samples m - 1) = Inr x"
    using assms len by (intro py_index_wrapping) auto
  then show ?thesis
    using False len by (simp add: field_def py_index_in_range)
qed

lemma get_transition_valid:
  assumes "configured m" and "aligned m n" and "0 \<le> item" and "item < TMNF_len m"
  shows "\<exists>speed_last.
     field m 2 (item + min_samples m - 1) = Inr speed_last \<and>
     (1 \<le> min_samples m \<longrightarrow> speed_last = data m ! 2 ! nat (item + min_samples m - 1)) \<and>
     get_transition f32 m item =
     (let idx_now = item + min_samples m;
          acts = window (data m ! 1) (item + start_acts_offset m) (act_buf_len m + 1);
          imgs = window (data m ! 3) (item + start_imgs_offset m) (imgs_obs m + 1)
      in Inr ((speed_last, butlast imgs, butlast acts),
              data m ! 1 ! nat idx_now,
              f32 (data m ! 5 ! nat idx_now),
              (data m ! 2 ! nat idx_now, tl imgs, tl acts),
              data m ! 4 ! nat idx_now,
              data m ! 6 ! nat idx_now))"
proof -
  have n: "item + min_samples m + 1 < int n"
    using assms by (simp add: TMNF_len_aligned)
  have ms: "0 \<le> min_samples m"
    using assms(1) by (auto simp: configured_def)
  have f: "\<And>k. 0 \<le> k \<Longrightarrow> k < 7 \<Longrightarrow>
      field m k (item + min_samples m) = Inr (data m ! nat k ! nat (item + min_samples m))"
    using assms n ms by (intro field_in_range) auto
  obtain x where x: "field m 2 (item + min_samples m - 1) = Inr x"
      "1 \<le> min_samples m \<longrightarrow> x = data m ! 2 ! nat (item + min_samples m - 1)"
    using field_idx_last[OF assms(2) ms assms(3) n] by blast
  have "get_transition f32 m item =
     (let idx_now = item + min_samples m;
          acts = window (data m ! 1) (item + start_acts_offset m) (act_buf_len m + 1);
          imgs = window (data m ! 3) (item + start_imgs_offset m) (imgs_obs m + 1)
      in Inr ((x, butlast imgs, butlast acts),
              data m ! 1 ! nat idx_now,
              f32 (data m ! 5 ! nat idx_now),
              (data m ! 2 ! nat idx_now, tl imgs, tl acts),
              data m ! 4 ! nat idx_now,
              data m ! 6 ! nat idx_now))"
    unfolding get_transition_def Let_def
    by (simp add: load_acts_valid[OF assms] load_imgs_valid[OF assms]
        f x(1) py_slice_to_butlast py_slice_from_tl)
  with x show ?thesis by blast
qed

lemma last_tl_window:
  assumes "0 \<le> a" and "1 \<le> k" and "a + k + 1 \<le> int (length xs)"
  shows "tl (window xs a (k + 1)) \<noteq> [] \<and> last (tl (window xs a (k + 1))) = xs ! nat (a + k)"
proof -
  let ?w = "window xs a (k + 1)"
  have len: "length ?w = nat (k + 1)"
    using assms by (intro length_window) auto
  then have ne: "tl ?w \<noteq> []"
    using assms by (cases ?w) (auto simp: nat_add_distrib)
  have "last (tl ?w) = last ?w"
    using ne by (simp add: last_tl)
  also have "\<dots> = ?w ! nat k"
    using len assms by (subst last_conv_nth) (auto simp: nat_add_distrib)
  also have "\<dots> = xs ! (nat a + nat k)"
    using assms by (simp add: window_def)
  finally show ?thesis
    using ne assms by (simp add: nat_add_distrib)
qed

text \<open>
  Claim C2. On a configured memory with aligned columns and at least one history step,
  for every item with \<open>0 \<le> item < __len__\<close>, \<^verbatim>\<open>get_transition\<close> reads the action
  window as the \<open>act_buf_len + 1\<close> contiguous stored actions from
  \<open>item + start_acts_offset\<close> and the image window as the \<open>imgs_obs + 1\<close> contiguous
  stored images from \<open>item + start_imgs_offset\<close>; the last observation takes each window
  without its last element, the new one without its first; the scalars come from rows
  \<open>idx_last = item + min_samples - 1\<close> and \<open>idx_now = item + min_samples\<close>.
\<close>

theorem get_transition_windows:
  assumes "configured m" and "aligned m n" and "1 \<le> min_samples m"
    and "0 \<le> item" and "item < TMNF_len m"
  shows "get_transition f32 m item =
     (let idx_last = item + min_samples m - 1;
          idx_now = item + min_samples m;
          acts = window (data m ! 1) (item + start_acts_offset m) (act_buf_len m + 1);
          imgs = window (data m ! 3) (item + start_imgs_offset m) (imgs_obs m + 1)
      in Inr ((data m ! 2 ! nat idx_last, butlast imgs, butlast acts),
              data m ! 1 ! nat idx_now,
              f32 (data m ! 5 ! nat idx_now),
              (data m ! 2 ! nat idx_now, tl imgs, tl acts),
              data m ! 4 ! nat idx_now,
              data m ! 6 ! nat idx_now))"
  using get_transition_valid[OF assms(1,2,4,5), of f32] assms(3)
  by (auto simp: Let_def)

text \<open>
  Claim C5. For every valid item, the last image of the new observation and the last
  action of the new action buffer are the image and the action stored at row
  \<open>item + min_samples\<close>, whichever of \<open>imgs_obs\<close> and \<open>act_buf_len\<close> is larger (both at
  least one, so that the windows have a last element).
\<close>

theorem windows_end_at_idx_now:
  assumes "configured m" and "aligned m n"
    and "1 \<le> imgs_obs m" and "1 \<le> act_buf_len m"
    and "0 \<le> item" and "item < TMNF_len m"
  shows "\<exists>last_obs new_act rew speed imgs acts dn info.
           get_transition f32 m item = Inr (last_obs, new_act, rew, (speed, imgs, acts), dn, info)
           \<and> imgs \<noteq> [] \<and> acts \<noteq> []
           \<and> last imgs = data m ! 3 ! nat (item + min_samples m)
           \<and> last acts = data m ! 1 ! nat (item + min_samples m)"
proof -
  have n: "item + min_samples m + 1 < int n"
    using assms by (simp add: TMNF_len_aligned)
  have len: "length (data m ! 3) = n" "length (data m ! 1) = n"
    using assms(2) by (simp_all add: aligned_def list_all_length)
  have io: "item + start_imgs_offset m + imgs_obs m = item + min_samples m"
      "0 \<le> item + start_imgs_offset m"
    using assms(1,5) by (auto simp: configured_def)
  have ab: "item + start_acts_offset m + act_buf_len m = item + min_samples m"
      "0 \<le> item + start_acts_offset m"
    using assms(1,5) by (auto simp: configured_def)
  have i: "tl (window (data m ! 3) (item + start_imgs_offset m) (imgs_obs m + 1)) \<noteq> []
       \<and> last (tl (window (data m ! 3) (item + start_imgs_offset m) (imgs_obs m + 1)))
           = data m ! 3 ! nat (item + start_imgs_offset m + imgs_obs m)"
    using io n len assms(3) by (intro last_tl_window) auto
  have a: "tl (window (data m ! 1) (item + start_acts_offset m) (act_buf_len m + 1)) \<noteq> []
       \<and> last (tl (window (data m ! 1) (item + start_acts_offset m) (act_buf_len m + 1)))
           = data m ! 1 ! nat (item + start_acts_offset m + act_buf_len m)"
    using ab n len assms(4) by (intro last_tl_window) auto
  show ?thesis
    using get_transition_valid[OF assms(1,2,5,6), of f32] i a io(1) ab(1)
    by (auto simp: Let_def)
qed

lemma py_slice_nonempty_iff:
  assumes "0 \<le> a" and "0 \<le> k"
  shows "py_slice xs a (a + k + 1) = [] \<longleftrightarrow> int (length xs) \<le> a"
  using assms by (auto simp: py_slice_def py_bound_def Let_def min_def)

text \<open>
  Claim C8, as amended. For every item greater than \<open>__len__\<close>, \<^verbatim>\<open>get_transition\<close>
  raises: ValueError from \<^verbatim>\<open>np.stack\<close> when the image slice is empty, IndexError from
  a list index otherwise. (The item equal to \<open>__len__\<close> and negative items are not
  rejected, see the counterexample.)
\<close>

theorem get_transition_beyond_raises:
  assumes "configured m" and "aligned m n" and "TMNF_len m < item"
  shows "get_transition f32 m item =
           Inl (if int n \<le> item + start_imgs_offset m then ValueError else IndexError)"
proof -
  have item: "1 \<le> item" "int n \<le> item + min_samples m"
    using assms(2,3) by (auto simp add: TMNF_len_aligned)
  have ms: "0 \<le> min_samples m" "0 \<le> start_imgs_offset m" "0 \<le> imgs_obs m"
    using assms(1) by (auto simp: configured_def)
  have len: "length (data m ! 3) = n" "length (data m ! 1) = n" "length (data m) = 7"
    using assms(2) by (simp_all add: aligned_def list_all_length)
  have acts: "\<exists>acts. load_acts m item = Inr acts"
    using len by (simp add: load_acts_def py_index_in_range)
  have imgs: "load_imgs m item =
      (if int n \<le> item + start_imgs_offset m then Inl ValueError
       else Inr (py_slice (data m ! 3) (item + start_imgs_offset m)
                   (item + start_imgs_offset m + imgs_obs m + 1)))"
    using len item ms
      py_slice_nonempty_iff[of "item + start_imgs_offset m" "imgs_obs m" "data m ! 3"]
    by (simp add: load_imgs_def py_index_in_range np_stack_def)
  have now: "\<And>k. 0 \<le> k \<Longrightarrow> k < 7 \<Longrightarrow> field m k (item + min_samples m) = Inl IndexError"
    using assms(2) item by (intro field_beyond) auto
  have "(\<exists>x. field m 2 (item + min_samples m - 1) = Inr x) \<or>
        field m 2 (item + min_samples m - 1) = Inl IndexError"
  proof (cases "item + min_samples m - 1 < int n")
    case True
    then show ?thesis
      using field_in_range[OF assms(2), of 2 "item + min_samples m - 1"] item ms by simp
  next
    case False
    then show ?thesis
      using field_beyond[OF assms(2), of 2 "item + min_samples m - 1"] by simp
  qed
  then show ?thesis
    using acts imgs now unfolding get_transition_def Let_def by auto
qed


theorem get_transition_windows_witness:
  "configured (stored 100 4 1 10) \<and> aligned (stored 100 4 1 10) 10
   \<and> 1 \<le> min_samples (stored 100 4 1 10) \<and> (0::int) \<le> 0
   \<and> 0 < TMNF_len (stored 100 4 1 10)
   \<and> get_transition id (stored 100 4 1 10) 0 =
       Inr ((PyObj (2, 3), [PyObj (3, 0), PyObj (3, 1), PyObj (3, 2), PyObj (3, 3)],
             [PyObj (1, 3)]),
            PyObj (1, 4), PyObj (5, 4),
            (PyObj (2, 4), [PyObj (3, 1), PyObj (3, 2), PyObj (3, 3), PyObj (3, 4)],
             [PyObj (1, 4)]),
            PyObj (4, 4), PyObj (6, 4))"
proof -
  have a: "configured (stored 100 4 1 10)" by code_simp
  have b: "aligned (stored 100 4 1 10) 10" by code_simp
  have c: "1 \<le> min_samples (stored 100 4 1 10)" by code_simp
  have d: "(0::int) \<le> 0" by simp
  have e: "0 < TMNF_len (stored 100 4 1 10)" by code_simp
  have z: "get_transition id (stored 100 4 1 10) 0 =
       Inr ((PyObj (2, 3), [PyObj (3, 0), PyObj (3, 1), PyObj (3, 2), PyObj (3, 3)],
             [PyObj (1, 3)]),
            PyObj (1, 4), PyObj (5, 4),
            (PyObj (2, 4), [PyObj (3, 1), PyObj (3, 2), PyObj (3, 3), PyObj (3, 4)],
             [PyObj (1, 4)]),
            PyObj (4, 4), PyObj (6, 4))"
    by (rule trans[OF get_transition_windows[OF a b c d e]]) code_simp
  show ?thesis by (rule conjI a b c d e z)+
qed

theorem windows_end_at_idx_now_witness:
  "configured (stored 100 1 4 10) \<and> aligned (stored 100 1 4 10) 10
   \<and> 1 \<le> imgs_obs (stored 100 1 4 10) \<and> 1 \<le> act_buf_len (stored 100 1 4 10)
   \<and> (0::int) \<le> 2 \<and> 2 < TMNF_len (stored 100 1 4 10)
   \<and> (\<exists>last_obs new_act rew speed imgs acts dn info.
           get_transition id (stored 100 1 4 10) 2
             = Inr (last_obs, new_act, rew, (speed, imgs, acts), dn, info)
           \<and> imgs \<noteq> [] \<and> acts \<noteq> []
           \<and> last imgs = PyObj (3, 6) \<and> last acts = PyObj (1, 6))"
proof -
  have a: "configured (stored 100 1 4 10)" by code_simp
  have b: "aligned (stored 100 1 4 10) 10" by code_simp
  have c: "1 \<le> imgs_obs (stored 100 1 4 10)" by code_simp
  have d: "1 \<le> act_buf_len (stored 100 1 4 10)" by code_simp
  have e: "(0::int) \<le> 2" by simp
  have f: "2 < TMNF_len (stored 100 1 4 10)" by code_simp
  have g: "data (stored 100 1 4 10) ! 3 ! nat (2 + min_samples (stored 100 1 4 10))
             = PyObj (3, 6)"
    by code_simp
  have h: "data (stored 100 1 4 10) ! 1 ! nat (2 + min_samples (stored 100 1 4 10))
             = PyObj (1, 6)"
    by code_simp
  have z: "\<exists>last_obs new_act rew speed imgs acts dn info.
           get_transition id (stored 100 1 4 10) 2
             = Inr (last_obs, new_act, rew, (speed, imgs, acts), dn, info)
           \<and> imgs \<noteq> [] \<and> acts \<noteq> []
           \<and> last imgs = PyObj (3, 6) \<and> last acts = PyObj (1, 6)"
    using windows_end_at_idx_now[OF a b c d e f, of id] unfolding g h .
  show ?thesis by (rule conjI a b c d e f z)+
qed

theorem get_transition_beyond_raises_witness:
  "configured (stored 100 4 1 10) \<and> aligned (stored 100 4 1 10) 10
   \<and> TMNF_len (stored 100 4 1 10) < 6
   \<and> get_transition id (stored 100 4 1 10) 6 = Inl IndexError"
proof -
  have a: "configured (stored 100 4 1 10)" by code_simp
  have b: "aligned (stored 100 4 1 10) 10" by code_simp
  have c: "TMNF_len (stored 100 4 1 10) < 6" by code_simp
  have z: "get_transition id (stored 100 4 1 10) 6 = Inl IndexError"
    by (rule trans[OF get_transition_beyond_raises[OF a b c]]) code_simp
  show ?thesis by (rule conjI a b c z)+
qed

text \<open>
  Claim C8 as stated fails. With ten stored rows, \<open>imgs_obs = 4\<close> and \<open>act_buf_len = 1\<close>
  the length is 5, and item 5 yields the transition that ends at the last stored row.
  With \<open>imgs_obs = 1\<close> and \<open>act_buf_len = 4\<close>, item \<open>-1\<close> yields a transition whose
  action buffers are empty: the slice bound \<open>-1\<close> wrapped to the end of the column.
\<close>

theorem get_transition_out_of_range_counterexample:
  "TMNF_len (stored 100 4 1 10) = 5
   \<and> get_transition id (stored 100 4 1 10) 5 =
       Inr ((PyObj (2, 8), [PyObj (3, 5), PyObj (3, 6), PyObj (3, 7), PyObj (3, 8)],
             [PyObj (1, 8)]),
            PyObj (1, 9), PyObj (5, 9),
            (PyObj (2, 9), [PyObj (3, 6), PyObj (3, 7), PyObj (3, 8), PyObj (3, 9)],
             [PyObj (1, 9)]),
            PyObj (4, 9), PyObj (6, 9))
   \<and> get_transition id (stored 100 1 4 10) (- 1) =
       Inr ((PyObj (2, 2), [PyObj (3, 2)], []), PyObj (1, 3), PyObj (5, 3),
            (PyObj (2, 3), [PyObj (3, 3)], []), PyObj (4, 3), PyObj (6, 3))"
  by code_simp

lemma length7:
  "length xs = 7 \<Longrightarrow> \<exists>a b c d e f g. xs = [a, b, c, d, e, f, g]"
  by (auto simp: length_Suc_conv eval_nat_numeral)

lemma length_index_run [simp]: "length (index_run j n) = n"
  by (simp add: index_run_def)

lemma index_run_eq_Nil [simp]: "index_run j n = [] \<longleftrightarrow> n = 0"
  by (simp add: index_run_def)

lemma nth_index_run: "i < n \<Longrightarrow> index_run j n ! i = PyInt (j + int i)"
  by (simp add: index_run_def)

lemma index_run_append:
  "index_run j n @ map (\<lambda>i. PyInt (j + int n + int i)) [0..<k] = index_run j (n + k)"
proof (rule nth_equalityI)
  show "length (index_run j n @ map (\<lambda>i. PyInt (j + int n + int i)) [0..<k])
          = length (index_run j (n + k) :: 'a pyobj list)"
    by simp
next
  fix i
  assume "i < length (index_run j n @ map (\<lambda>i. PyInt (j + int n + int i)) [0..<k])"
  then have i: "i < n + k" by simp
  show "(index_run j n @ map (\<lambda>i. PyInt (j + int n + int i)) [0..<k]) ! i
          = (index_run j (n + k) :: 'a pyobj list) ! i"
  proof (cases "i < n")
    case True
    then show ?thesis using i by (simp add: nth_append nth_index_run)
  next
    case False
    then have "int (i - n) = int i - int n" by simp
    then show ?thesis using False i by (simp add: nth_append nth_index_run)
  qed
qed

lemma index_run_drop: "drop t (index_run j n) = index_run (j + int t) (n - t)"
proof (rule nth_equalityI)
  show "length (drop t (index_run j n)) = length (index_run (j + int t) (n - t) :: 'a pyobj list)"
    by simp
next
  fix i
  assume "i < length (drop t (index_run j n))"
  then have i: "t + i < n" by simp
  then show "drop t (index_run j n) ! i = (index_run (j + int t) (n - t) :: 'a pyobj list) ! i"
    by (simp add: nth_index_run)
qed

lemma py_slice_from_pos: "0 < t \<Longrightarrow> py_slice_from xs t = drop (nat t) xs"
  by (simp add: py_slice_from_def py_bound_def min_def)

lemma trim_phase:
  assumes "length dat = 7"
  shows "(if 0 < to_trim
          then after (trim_cols 7 to_trim dat) (\<lambda>dat'. Inr (m\<lparr>data := dat'\<rparr>))
          else Inr (m\<lparr>data := dat\<rparr>))
         = Inr (m\<lparr>data := map (drop (nat to_trim)) dat\<rparr>)"
  using assms by (simp add: trim_cols_def py_slice_from_pos)

lemma append_buffer_empty:
  assumes "data m = []"
  shows "append_buffer buffer m =
           Inr (m\<lparr>data := map (drop (trimmed m (length buffer))) (appended m 0 0 buffer)\<rparr>)"
proof -
  let ?k = "length buffer"
  let ?D = "appended m 0 0 buffer"
  let ?t = "TMNF_len (m\<lparr>data := ?D\<rparr>) - memory_size m"
  have l0: "TMNF_len m = 0"
    using assms by (simp add: TMNF_len_def)
  have l1: "TMNF_len (m\<lparr>data := ?D\<rparr>) = max 0 (int ?k - min_samples m - 1)"
    by (simp add: TMNF_len_def appended_def Let_def index_run_def)
  have "append_buffer buffer m =
      (if 0 < ?t then after (trim_cols 7 ?t ?D) (\<lambda>dat'. Inr (m\<lparr>data := dat'\<rparr>))
       else Inr (m\<lparr>data := ?D\<rparr>))"
    by (simp add: append_buffer_def l0 assms appended_def column_def index_run_def Let_def)
  also have "\<dots> = Inr (m\<lparr>data := map (drop (nat ?t)) ?D\<rparr>)"
    by (rule trim_phase) (simp add: appended_def)
  finally show ?thesis
    by (simp only: l1 trimmed_def)
qed

lemma append_buffer_live:
  assumes al: "aligned m n" and len: "0 < TMNF_len m" and idx: "data m ! 0 = index_run j n"
    and ms: "0 \<le> min_samples m"
  shows "append_buffer buffer m =
           Inr (m\<lparr>data := map (drop (trimmed m (n + length buffer))) (appended m j n buffer)\<rparr>)"
proof -
  let ?k = "length buffer"
  let ?D = "appended m j n buffer"
  let ?t = "TMNF_len (m\<lparr>data := ?D\<rparr>) - memory_size m"
  obtain c0 c1 c2 c3 c4 c5 c6 where dm: "data m = [c0, c1, c2, c3, c4, c5, c6]"
    using al length7[of "data m"] by (auto simp: aligned_def)
  have c0: "c0 = index_run j n"
    using idx dm by simp
  have n: "0 < n"
    using len ms al by (simp add: TMNF_len_aligned)
  have last: "field m 0 (- 1) = Inr (PyInt (j + int n - 1))"
  proof -
    have "int (n - 1) = int n - 1" using n by simp
    then show ?thesis
      using n by (simp add: field_def dm c0 py_index_def Let_def nth_index_run)
  qed
  have first: "(if 0 < TMNF_len m then after (field m 0 (- 1)) py_succ else Inr 0)
                 = Inr (j + int n)"
    using len by (simp add: last py_succ_def)
  have l1: "TMNF_len (m\<lparr>data := ?D\<rparr>) = max 0 (int (n + ?k) - min_samples m - 1)"
    by (simp add: TMNF_len_def appended_def Let_def)
  have "append_buffer buffer m =
      (if 0 < ?t then after (trim_cols 7 ?t ?D) (\<lambda>dat'. Inr (m\<lparr>data := dat'\<rparr>))
       else Inr (m\<lparr>data := ?D\<rparr>))"
    unfolding append_buffer_def first
    using len
    by (simp add: dm c0 appended_def column_def extend_cols_def index_run_append Let_def)
  also have "\<dots> = Inr (m\<lparr>data := map (drop (nat ?t)) ?D\<rparr>)"
    by (rule trim_phase) (simp add: appended_def)
  finally show ?thesis
    by (simp only: l1 trimmed_def)
qed

lemma append_buffer_holds:
  assumes "holds_rows m j n" and "0 \<le> min_samples m"
  shows "append_buffer buffer m =
           Inr (m\<lparr>data := map (drop (trimmed m (n + length buffer))) (appended m j n buffer)\<rparr>)"
proof (cases "data m = []")
  case True
  then show ?thesis
    using assms(1) append_buffer_empty[OF True, of buffer] by (simp add: holds_rows_def)
next
  case False
  then show ?thesis
    using assms by (intro append_buffer_live) (simp_all add: holds_rows_def)
qed

lemma aligned_appended:
  assumes "holds_rows m j n"
  shows "aligned (m\<lparr>data := map (drop t) (appended m j n buffer)\<rparr>) (n + length buffer - t)"
proof (cases "data m = []")
  case True
  then show ?thesis
    using assms by (simp add: holds_rows_def aligned_def appended_def column_def)
next
  case False
  then have "aligned m n" using assms by (simp add: holds_rows_def)
  then have "\<And>i. i < 7 \<Longrightarrow> length (data m ! i) = n"
    by (rule aligned_column)
  then show ?thesis
    using False by (simp add: aligned_def appended_def column_def)
qed

text \<open>
  Claim C1, as amended. An append made on a memory that has no column yet
  (\<^verbatim>\<open>self.data == []\<close>, as after construction) or that has seven aligned columns,
  consecutive integers in the index column and a positive length, with \<^verbatim>\<open>min_samples\<close>
  and \<^verbatim>\<open>memory_size\<close> not negative, leaves seven aligned columns: the old ones with
  the rows of the buffer at their end, less the rows cut off. The rows cut off are the
  oldest, as many as the length after the append exceeds \<^verbatim>\<open>memory_size\<close>; afterwards
  the length is \<open>max 0 (rows - min_samples - 1)\<close> and at most \<^verbatim>\<open>memory_size\<close>, so that
  at most \<open>memory_size + min_samples + 1\<close> rows are stored. While the length stays
  positive the memory is again in such a state, so that the same holds of the next append.
\<close>

theorem append_buffer_bounds_length:
  assumes "holds_rows m j n" and "0 \<le> min_samples m" and "0 \<le> memory_size m"
  shows "\<exists>m'. append_buffer buffer m = Inr m' \<and>
      (let rows = n + length buffer;
           cut = nat (max 0 (int rows - min_samples m - 1) - memory_size m)
       in data m' = map (drop cut) (appended m j n buffer)
          \<and> aligned m' (rows - cut)
          \<and> TMNF_len m' = max 0 (int (rows - cut) - min_samples m - 1)
          \<and> TMNF_len m' \<le> memory_size m
          \<and> int (rows - cut) \<le> memory_size m + min_samples m + 1
          \<and> (0 < TMNF_len m' \<longrightarrow> holds_rows m' (j + int cut) (rows - cut)))"
proof -
  let ?rows = "n + length buffer"
  let ?cut = "nat (max 0 (int ?rows - min_samples m - 1) - memory_size m)"
  let ?m' = "m\<lparr>data := map (drop ?cut) (appended m j n buffer)\<rparr>"
  have r: "append_buffer buffer m = Inr ?m'"
    using append_buffer_holds[OF assms(1,2), of buffer] by (simp add: trimmed_def)
  have al: "aligned ?m' (?rows - ?cut)"
    by (rule aligned_appended[OF assms(1)])
  have len: "TMNF_len ?m' = max 0 (int (?rows - ?cut) - min_samples m - 1)"
    using TMNF_len_aligned[OF al] by simp
  have cut: "int ?cut = max 0 (max 0 (int ?rows - min_samples m - 1) - memory_size m)"
    by (simp add: max_def)
  have le: "?cut \<le> ?rows"
    using assms(2,3) by (simp add: nat_le_iff max_def)
  have b1: "TMNF_len ?m' \<le> memory_size m"
    unfolding len using assms(2,3) le cut by (simp add: of_nat_diff max_def)
  have b2: "int (?rows - ?cut) \<le> memory_size m + min_samples m + 1"
    using assms(2,3) le cut by (simp add: of_nat_diff max_def)
  have ne: "data ?m' \<noteq> []"
    by (simp add: appended_def)
  have i0: "data ?m' ! 0 = index_run (j + int ?cut) (?rows - ?cut)"
    by (simp add: appended_def index_run_drop)
  have h: "0 < TMNF_len ?m' \<longrightarrow> holds_rows ?m' (j + int ?cut) (?rows - ?cut)"
    unfolding holds_rows_def using al i0 ne by (simp only: if_False simp_thms)
  have d: "data ?m' = map (drop ?cut) (appended m j n buffer)"
    by simp
  show ?thesis
    unfolding Let_def by (rule exI[of _ ?m']) (intro conjI r d al len b1 b2 h)
qed

text \<open>
  Claim C3, as amended. An append made on a memory that has no column yet
  (\<^verbatim>\<open>self.data == []\<close>, as after construction) or that has seven aligned columns,
  consecutive integers in the index column and a positive length, with \<^verbatim>\<open>min_samples\<close>
  not negative, continues the numbering: with the stored rows numbered
  \<open>j, j + 1, ...\<close> (from 0 while no column exists), the index column afterwards is
  the gapless run from \<open>j\<close> over the old and the new rows, without the oldest rows that
  were cut off; cutting renumbers nothing. While the length stays positive the memory
  is again in such a state, so that the next append continues the same numbering.
\<close>

theorem append_buffer_index_gapless:
  assumes "holds_rows m j n" and "0 \<le> min_samples m"
  shows "\<exists>m'. append_buffer buffer m = Inr m' \<and>
      (let rows = n + length buffer; cut = trimmed m rows
       in data m' ! 0 = drop cut (index_run j rows)
          \<and> data m' ! 0 = index_run (j + int cut) (rows - cut)
          \<and> (0 < TMNF_len m' \<longrightarrow> holds_rows m' (j + int cut) (rows - cut)))"
proof -
  let ?rows = "n + length buffer"
  let ?cut = "trimmed m ?rows"
  let ?m' = "m\<lparr>data := map (drop ?cut) (appended m j n buffer)\<rparr>"
  have r: "append_buffer buffer m = Inr ?m'"
    by (rule append_buffer_holds[OF assms])
  have al: "aligned ?m' (?rows - ?cut)"
    by (rule aligned_appended[OF assms(1)])
  have i: "data ?m' ! 0 = drop ?cut (index_run j ?rows)"
      "data ?m' ! 0 = index_run (j + int ?cut) (?rows - ?cut)"
    by (simp_all add: appended_def index_run_drop)
  have ne: "data ?m' \<noteq> []"
    by (simp add: appended_def)
  have h: "0 < TMNF_len ?m' \<longrightarrow> holds_rows ?m' (j + int ?cut) (?rows - ?cut)"
    unfolding holds_rows_def using al i(2) ne by (simp only: if_False simp_thms)
  show ?thesis
    unfolding Let_def by (rule exI[of _ ?m']) (intro conjI r i h)
qed

theorem append_buffer_bounds_length_witness:
  "holds_rows (MemoryTMNF_init 100 4 1 :: (nat \<times> nat) memory_tmnf) 0 0
   \<and> 0 \<le> min_samples (MemoryTMNF_init 100 4 1 :: (nat \<times> nat) memory_tmnf)
   \<and> 0 \<le> memory_size (MemoryTMNF_init 100 4 1 :: (nat \<times> nat) memory_tmnf)
   \<and> append_buffer (labelled_buffer 0 150) (MemoryTMNF_init 100 4 1)
       = Inr ((MemoryTMNF_init 100 4 1)\<lparr>data := map (drop 45) (labelled_store 150)\<rparr>)
   \<and> data ((MemoryTMNF_init 100 4 1)\<lparr>data := map (drop 45) (labelled_store 150)\<rparr>)
       = map (drop 45) (appended (MemoryTMNF_init 100 4 1) 0 0 (labelled_buffer 0 150))
   \<and> aligned ((MemoryTMNF_init 100 4 1)\<lparr>data := map (drop 45) (labelled_store 150)\<rparr>) 105
   \<and> TMNF_len ((MemoryTMNF_init 100 4 1)\<lparr>data := map (drop 45) (labelled_store 150)\<rparr>)
       = 100
   \<and> holds_rows ((MemoryTMNF_init 100 4 1)\<lparr>data := map (drop 45) (labelled_store 150)\<rparr>)
        45 105"
proof -
  let ?M = "MemoryTMNF_init 100 4 1 :: (nat \<times> nat) memory_tmnf"
  let ?B = "labelled_buffer 0 150"
  let ?R = "(MemoryTMNF_init 100 4 1)\<lparr>data := map (drop 45) (labelled_store 150)\<rparr>
              :: (nat \<times> nat) memory_tmnf"
  have a: "holds_rows ?M 0 0" by code_simp
  have b: "0 \<le> min_samples ?M" by code_simp
  have c: "0 \<le> memory_size ?M" by code_simp
  have e: "append_buffer ?B ?M = Inr ?R" by code_simp
  have rows: "0 + length ?B = 150" by (simp add: labelled_buffer_def)
  have cut: "nat (max 0 (int 150 - min_samples ?M - 1) - memory_size ?M) = 45"
    by (simp add: MemoryTMNF_init_def)
  have ms: "min_samples ?M = 4" "memory_size ?M = 100"
    by (simp_all add: MemoryTMNF_init_def)
  obtain m' where m': "append_buffer ?B ?M = Inr m'"
      "data m' = map (drop 45) (appended ?M 0 0 ?B)"
      "aligned m' (150 - 45)"
      "TMNF_len m' = max 0 (int (150 - 45) - min_samples ?M - 1)"
      "0 < TMNF_len m' \<longrightarrow> holds_rows m' (0 + int 45) (150 - 45)"
    using append_buffer_bounds_length[OF a b c, of ?B, unfolded Let_def rows cut] by blast
  have eq: "m' = ?R"
    using m'(1) unfolding e by (simp only: sum.inject)
  have z1: "data ?R = map (drop 45) (appended ?M 0 0 ?B)"
    using m'(2) unfolding eq .
  have n: "(150::nat) - 45 = 105" "(0::int) + int 45 = 45" by simp_all
  have z2: "aligned ?R 105"
    using m'(3) unfolding eq n .
  have z3: "TMNF_len ?R = 100"
    using m'(4) unfolding eq n ms by simp
  have "0 < TMNF_len ?R" unfolding z3 by simp
  then have z4: "holds_rows ?R 45 105"
    using m'(5) unfolding eq n by blast
  show ?thesis by (rule conjI a b c e z1 z2 z3 z4)+
qed

text \<open>
  Claim C1 as stated fails: 150 samples appended to a newly constructed memory with
  \<^verbatim>\<open>memory_size = 100\<close>, \<open>imgs_obs = 4\<close> and \<open>act_buf_len = 1\<close> lose 45 rows, not 50;
  105 rows stay, more than \<^verbatim>\<open>memory_size\<close>.
\<close>

theorem append_150_keeps_105_rows_counterexample:
  "append_buffer (labelled_buffer 0 150) (MemoryTMNF_init 100 4 1)
     = Inr ((MemoryTMNF_init 100 4 1)\<lparr>data := map (drop 45) (labelled_store 150)\<rparr>)
   \<and> map length (map (drop 45) (labelled_store 150)) = [105, 105, 105, 105, 105, 105, 105]
   \<and> memory_size (MemoryTMNF_init 100 4 1 :: (nat \<times> nat) memory_tmnf) < 105"
  by code_simp

theorem append_buffer_index_gapless_witness:
  "holds_rows (stored 100 4 1 10) 0 10
   \<and> 0 \<le> min_samples (stored 100 4 1 10)
   \<and> append_buffer (labelled_buffer 10 140) (stored 100 4 1 10)
       = Inr ((stored 100 4 1 10)\<lparr>data := map (drop 45) (labelled_store 150)\<rparr>)
   \<and> data ((stored 100 4 1 10)\<lparr>data := map (drop 45) (labelled_store 150)\<rparr>) ! 0
       = drop 45 (index_run 0 150)
   \<and> data ((stored 100 4 1 10)\<lparr>data := map (drop 45) (labelled_store 150)\<rparr>) ! 0
       = index_run 45 105
   \<and> 0 < TMNF_len ((stored 100 4 1 10)\<lparr>data := map (drop 45) (labelled_store 150)\<rparr>)
   \<and> holds_rows ((stored 100 4 1 10)\<lparr>data := map (drop 45) (labelled_store 150)\<rparr>) 45 105"
proof -
  let ?M = "stored 100 4 1 10"
  let ?B = "labelled_buffer 10 140"
  let ?R = "(stored 100 4 1 10)\<lparr>data := map (drop 45) (labelled_store 150)\<rparr>"
  have a: "holds_rows ?M 0 10" by code_simp
  have b: "0 \<le> min_samples ?M" by code_simp
  have e: "append_buffer ?B ?M = Inr ?R" by code_simp
  have l: "0 < TMNF_len ?R" by code_simp
  have rows: "10 + length ?B = 150" by (simp add: labelled_buffer_def)
  have cut: "trimmed ?M 150 = 45"
    by (simp add: trimmed_def stored_def MemoryTMNF_init_def)
  have "\<exists>m'. append_buffer ?B ?M = Inr m'
          \<and> data m' ! 0 = drop 45 (index_run 0 150)
          \<and> data m' ! 0 = index_run 45 105
          \<and> (0 < TMNF_len m' \<longrightarrow> holds_rows m' 45 105)"
    using append_buffer_index_gapless[OF a b, of ?B]
    unfolding Let_def rows cut by simp
  then obtain m' where m': "append_buffer ?B ?M = Inr m'"
      "data m' ! 0 = drop 45 (index_run 0 150)" "data m' ! 0 = index_run 45 105"
      "0 < TMNF_len m' \<longrightarrow> holds_rows m' 45 105"
    by blast
  have eq: "m' = ?R"
    using m'(1) unfolding e by (simp only: sum.inject)
  have z: "data ?R ! 0 = drop 45 (index_run 0 150)" "data ?R ! 0 = index_run 45 105"
      "holds_rows ?R 45 105"
    using m'(2,3,4) l unfolding eq by blast+
  show ?thesis by (rule conjI a b e z l)+
qed

text \<open>
  Claim C3 as stated fails in its scenario: after 150 samples with
  \<^verbatim>\<open>memory_size = 100\<close> (\<open>imgs_obs = 4\<close>, \<open>act_buf_len = 1\<close>) the first remaining row
  is the 46th appended sample, with index 45; the 51st sample has index 50.
\<close>

theorem first_remaining_row_counterexample:
  "append_buffer (labelled_buffer 0 150) (MemoryTMNF_init 100 4 1)
     = Inr ((MemoryTMNF_init 100 4 1)\<lparr>data := map (drop 45) (labelled_store 150)\<rparr>)
   \<and> map hd (map (drop 45) (labelled_store 150))
       = [PyInt 45, PyObj (1, 45), PyObj (2, 45), PyObj (3, 45), PyObj (4, 45),
          PyObj (5, 45), PyObj (6, 45)]
   \<and> labelled_buffer 0 150 ! 45
       = (PyObj (1, 45), (PyObj (2, 45), PyObj (3, 45)), PyObj (5, 45), PyObj (4, 45),
          PyObj (6, 45))
   \<and> labelled_store 150 ! 0 ! 50 = PyInt 50"
  by code_simp

text \<open>
  Claim C4. The store should always be the seven aligned columns. The code appends a
  buffer to a store that holds rows but has length 0 (here three rows, with
  \<open>min_samples = 4\<close>) as seven further columns: the store then has fourteen columns,
  of three and of two rows, and the numbering starts again at 0.
\<close>

theorem append_to_short_store_adds_columns:
  "append_buffer (labelled_buffer 0 3) (MemoryTMNF_init 100 4 1) = Inr (stored 100 4 1 3)
   \<and> TMNF_len (stored 100 4 1 3) = 0
   \<and> append_buffer (labelled_buffer 3 2) (stored 100 4 1 3)
       = Inr ((stored 100 4 1 3)\<lparr>data := labelled_store 3 @
               [[PyInt 0, PyInt 1],
                [PyObj (1, 3), PyObj (1, 4)], [PyObj (2, 3), PyObj (2, 4)],
                [PyObj (3, 3), PyObj (3, 4)], [PyObj (4, 3), PyObj (4, 4)],
                [PyObj (5, 3), PyObj (5, 4)], [PyObj (6, 3), PyObj (6, 4)]]\<rparr>)
   \<and> map length (labelled_store 3 @
               [[PyInt 0, PyInt 1],
                [PyObj (1, 3), PyObj (1, 4)], [PyObj (2, 3), PyObj (2, 4)],
                [PyObj (3, 3), PyObj (3, 4)], [PyObj (4, 3), PyObj (4, 4)],
                [PyObj (5, 3), PyObj (5, 4)], [PyObj (6, 3), PyObj (6, 4)]])
       = [3, 3, 3, 3, 3, 3, 3, 2, 2, 2, 2, 2, 2, 2]"
  by code_simp

lemma py_range_one: "py_range 1 = [0]"
  by (simp add: py_range_def)

lemma for_each_single: "for_each f [x] = after (f x) (\<lambda>y. Inr [y])"
  by (cases "f x") simp_all

lemma py_slice_tl:
  assumes "0 \<le> k" and "length xs = nat (k + 1)"
  shows "py_slice xs 1 (k + 1) = tl xs"
proof -
  have "take (length xs - 1) (drop 1 xs) = drop 1 xs"
    by simp
  then show ?thesis
    using assms by (simp add: py_slice_def py_bound_def Let_def min_def drop_Suc nat_add_distrib)
qed

lemma load_acts_traj_one:
  "load_acts_traj ((TrajMemoryTMNF_init msize io abl 1)\<lparr>data := d\<rparr>) item
     = load_acts ((MemoryTMNF_init msize io abl)\<lparr>data := d\<rparr>) item"
  by (simp add: load_acts_traj_def load_acts_def TrajMemoryTMNF_init_def MemoryTMNF_init_def
      Let_def)

lemma load_imgs_traj_one:
  "load_imgs_traj ((TrajMemoryTMNF_init msize io abl 1)\<lparr>data := d\<rparr>) item
     = load_imgs ((MemoryTMNF_init msize io abl)\<lparr>data := d\<rparr>) item"
  by (simp add: load_imgs_traj_def load_imgs_def TrajMemoryTMNF_init_def MemoryTMNF_init_def
      Let_def)

lemma field_traj_one:
  "field ((TrajMemoryTMNF_init msize io abl 1)\<lparr>data := d\<rparr>) k i
     = field ((MemoryTMNF_init msize io abl)\<lparr>data := d\<rparr>) k i"
  by (simp add: field_def)

lemma configured_init:
  "0 \<le> io \<Longrightarrow> 0 \<le> abl \<Longrightarrow> configured ((MemoryTMNF_init msize io abl)\<lparr>data := d\<rparr>)"
  by (simp add: configured_def MemoryTMNF_init_def Let_def)

text \<open>
  Claim C7, as amended. For every valid item, \<^verbatim>\<open>get_trajectory\<close> on a trajectory memory
  with \<^verbatim>\<open>traj_len = 1\<close> returns four one-element lists: the new observation, the
  reward, the done flag and the info that \<^verbatim>\<open>get_transition\<close> returns for the same item
  on a \<^verbatim>\<open>MemoryTMNFLidar\<close> with the same \<open>imgs_obs\<close>, \<open>act_buf_len\<close> and data.
\<close>

theorem trajectory_of_length_one:
  assumes "0 \<le> io" and "0 \<le> abl"
    and "aligned ((MemoryTMNF_init msize io abl)\<lparr>data := d\<rparr>) n"
    and "0 \<le> item" and "item < TMNF_len ((MemoryTMNF_init msize io abl)\<lparr>data := d\<rparr>)"
  shows "\<exists>last_obs new_act rew new_obs dn info.
     get_transition f32 ((MemoryTMNF_init msize io abl)\<lparr>data := d\<rparr>) item
       = Inr (last_obs, new_act, rew, new_obs, dn, info) \<and>
     get_trajectory f32 ((TrajMemoryTMNF_init msize io abl 1)\<lparr>data := d\<rparr>) item
       = Inr ([new_obs], [rew], [dn], [info])"
proof -
  let ?m = "(MemoryTMNF_init msize io abl)\<lparr>data := d\<rparr>"
  let ?tm = "(TrajMemoryTMNF_init msize io abl 1)\<lparr>data := d\<rparr>"
  let ?now = "item + min_samples ?m"
  let ?acts = "window (data ?m ! 1) (item + start_acts_offset ?m) (act_buf_len ?m + 1)"
  let ?imgs = "window (data ?m ! 3) (item + start_imgs_offset ?m) (imgs_obs ?m + 1)"
  have cf: "configured ?m"
    using assms(1,2) by (rule configured_init)
  have n: "item + min_samples ?m + 1 < int n"
    using assms(3,4,5) by (simp add: TMNF_len_aligned)
  have ms: "0 \<le> min_samples ?m" "min_samples ?tm = min_samples ?m"
      "imgs_obs ?tm = io" "act_buf_len ?tm = abl" "traj_len ?tm = 1"
      "imgs_obs ?m = io" "act_buf_len ?m = abl"
    using assms(1,2) by (simp_all add: MemoryTMNF_init_def TrajMemoryTMNF_init_def Let_def)
  have f: "\<And>k. 0 \<le> k \<Longrightarrow> k < 7 \<Longrightarrow> field ?m k ?now = Inr (data ?m ! nat k ! nat ?now)"
    using assms(3,4) n ms(1) by (intro field_in_range) auto
  have la: "load_acts ?m item = Inr ?acts"
    by (rule load_acts_valid[OF cf assms(3,4,5)])
  have li: "load_imgs ?m item = Inr ?imgs"
    by (rule load_imgs_valid[OF cf assms(3,4,5)])
  have len: "length (data ?m ! 3) = n" "length (data ?m ! 1) = n"
    using assms(3) by (simp_all add: aligned_def list_all_length)
  have off: "0 \<le> item + start_imgs_offset ?m" "0 \<le> item + start_acts_offset ?m"
      "item + start_imgs_offset ?m + (io + 1) \<le> int n"
      "item + start_acts_offset ?m + (abl + 1) \<le> int n"
    using cf assms(4) n unfolding configured_def ms(6,7) by auto
  have wl: "length ?imgs = nat (io + 1)" "length ?acts = nat (abl + 1)"
    using off len assms(1,2) ms by (simp_all add: length_window)
  have sl: "py_slice ?imgs 1 (io + 1) = tl ?imgs" "py_slice ?acts 1 (abl + 1) = tl ?acts"
    using wl assms(1,2) by (simp_all add: py_slice_tl)
  have traj: "get_trajectory f32 ?tm item =
      Inr ([(data ?m ! 2 ! nat ?now, tl ?imgs, tl ?acts)],
           [f32 (data ?m ! 5 ! nat ?now)], [data ?m ! 4 ! nat ?now], [data ?m ! 6 ! nat ?now])"
    unfolding get_trajectory_def Let_def load_acts_traj_one load_imgs_traj_one field_traj_one
      ms(2-5) py_range_one for_each_single la li
    using sl by (simp add: f[simplified] add.commute)
  show ?thesis
    using get_transition_valid[OF cf assms(3,4,5), of f32] traj
    by (auto simp: Let_def)
qed

theorem trajectory_of_length_one_witness:
  "(0::int) \<le> 4 \<and> (0::int) \<le> 1
   \<and> aligned ((MemoryTMNF_init 100 4 1)\<lparr>data := labelled_store 10\<rparr>) 10
   \<and> (0::int) \<le> 2
   \<and> 2 < TMNF_len ((MemoryTMNF_init 100 4 1)\<lparr>data := labelled_store 10\<rparr>)
   \<and> (\<exists>last_obs new_act rew new_obs dn info.
         get_transition id ((MemoryTMNF_init 100 4 1)\<lparr>data := labelled_store 10\<rparr>) 2
           = Inr (last_obs, new_act, rew, new_obs, dn, info) \<and>
         get_trajectory id ((TrajMemoryTMNF_init 100 4 1 1)\<lparr>data := labelled_store 10\<rparr>) 2
           = Inr ([new_obs], [rew], [dn], [info]))
   \<and> get_trajectory id ((TrajMemoryTMNF_init 100 4 1 1)\<lparr>data := labelled_store 10\<rparr>) 2
       = Inr ([(PyObj (2, 6), [PyObj (3, 3), PyObj (3, 4), PyObj (3, 5), PyObj (3, 6)],
                [PyObj (1, 6)])],
              [PyObj (5, 6)], [PyObj (4, 6)], [PyObj (6, 6)])"
proof -
  have a: "(0::int) \<le> 4" by simp
  have b: "(0::int) \<le> 1" by simp
  have c: "aligned ((MemoryTMNF_init 100 4 1)\<lparr>data := labelled_store 10\<rparr>) 10"
    by code_simp
  have d: "(0::int) \<le> 2" by simp
  have e: "2 < TMNF_len ((MemoryTMNF_init 100 4 1)\<lparr>data := labelled_store 10\<rparr>)"
    by code_simp
  have z: "\<exists>last_obs new_act rew new_obs dn info.
         get_transition id ((MemoryTMNF_init 100 4 1)\<lparr>data := labelled_store 10\<rparr>) 2
           = Inr (last_obs, new_act, rew, new_obs, dn, info) \<and>
         get_trajectory id ((TrajMemoryTMNF_init 100 4 1 1)\<lparr>data := labelled_store 10\<rparr>) 2
           = Inr ([new_obs], [rew], [dn], [info])"
    by (rule trajectory_of_length_one[OF a b c d e])
  have v: "get_trajectory id ((TrajMemoryTMNF_init 100 4 1 1)\<lparr>data := labelled_store 10\<rparr>) 2
       = Inr ([(PyObj (2, 6), [PyObj (3, 3), PyObj (3, 4), PyObj (3, 5), PyObj (3, 6)],
                [PyObj (1, 6)])],
              [PyObj (5, 6)], [PyObj (4, 6)], [PyObj (6, 6)])"
    by code_simp
  show ?thesis by (rule conjI a b c d e z v)+
qed

text \<open>
  Claim C7 as stated fails: a trajectory carries no last observation and no new action.
  Two stores that differ in the speed of row 5 only give item 2 the same trajectory of
  length one and two transitions that differ in the last observation.
\<close>

theorem trajectory_lacks_last_observation_counterexample:
  "get_trajectory id ((TrajMemoryTMNF_init 100 4 1 1)\<lparr>data := labelled_store 10\<rparr>) 2
     = get_trajectory id ((TrajMemoryTMNF_init 100 4 1 1)\<lparr>data := other_store\<rparr>) 2
   \<and> get_trajectory id ((TrajMemoryTMNF_init 100 4 1 1)\<lparr>data := labelled_store 10\<rparr>) 2
       = Inr ([(PyObj (2, 6), [PyObj (3, 3), PyObj (3, 4), PyObj (3, 5), PyObj (3, 6)],
                [PyObj (1, 6)])],
              [PyObj (5, 6)], [PyObj (4, 6)], [PyObj (6, 6)])
   \<and> get_transition id ((MemoryTMNF_init 100 4 1)\<lparr>data := labelled_store 10\<rparr>) 2
       = Inr ((PyObj (2, 5), [PyObj (3, 2), PyObj (3, 3), PyObj (3, 4), PyObj (3, 5)],
               [PyObj (1, 5)]),
              PyObj (1, 6), PyObj (5, 6),
              (PyObj (2, 6), [PyObj (3, 3), PyObj (3, 4), PyObj (3, 5), PyObj (3, 6)],
               [PyObj (1, 6)]),
              PyObj (4, 6), PyObj (6, 6))
   \<and> get_transition id ((MemoryTMNF_init 100 4 1)\<lparr>data := other_store\<rparr>) 2
       = Inr ((PyObj (0, 0), [PyObj (3, 2), PyObj (3, 3), PyObj (3, 4), PyObj (3, 5)],
               [PyObj (1, 5)]),
              PyObj (1, 6), PyObj (5, 6),
              (PyObj (2, 6), [PyObj (3, 3), PyObj (3, 4), PyObj (3, 5), PyObj (3, 6)],
               [PyObj (1, 6)]),
              PyObj (4, 6), PyObj (6, 6))"
  by code_simp

lemma for_each_total:
  "(\<And>x. x \<in> set xs \<Longrightarrow> f x = Inr (g x)) \<Longrightarrow> for_each f xs = Inr (map g xs)"
  by (induction xs) simp_all

lemma wrapped_indexes_ok:
  "msize \<noteq> 0 \<Longrightarrow>
   wrapped_indexes first msize n = Inr (map (\<lambda>i. PyInt ((first + int i) mod msize)) [0..<n])"
  unfolding wrapped_indexes_def by (rule for_each_total) simp

lemma TM2020_len_few_columns:
  "int (length (data m)) < min_samples m + 1 \<Longrightarrow> TM2020_len m = Inr 0"
  by (simp add: TM2020_len_def)

lemma Cognifly_len_few_columns:
  "int (length (data m)) < min_samples m + 1 \<Longrightarrow> Cognifly_len m = Inr 0"
  by (simp add: Cognifly_len_def)

lemma trim_cols_length:
  "trim_cols k t dat = Inr dat' \<Longrightarrow> length dat' = length dat"
  by (auto simp: trim_cols_def split: if_splits)

lemma TM2020_first_append:
  assumes "data m = []" and "8 \<le> min_samples m" and "memory_size m \<noteq> 0"
  shows "\<exists>m'. TM2020_append_buffer buffer m = Inr m' \<and> length (data m') = 8
               \<and> min_samples m' = min_samples m"
proof -
  have l0: "TM2020_len m = Inr 0"
    using assms by (simp add: TM2020_len_few_columns)
  have l1: "\<And>dat. length dat = 8 \<Longrightarrow> TM2020_len (m\<lparr>data := dat\<rparr>) = Inr 0"
    using assms(2) by (simp add: TM2020_len_few_columns)
  have t: "\<And>dat t. length dat = 8 \<Longrightarrow>
      \<exists>dat'. trim_cols 8 t dat = Inr dat' \<and> length dat' = 8"
    by (simp add: trim_cols_def)
  show ?thesis
    unfolding TM2020_append_buffer_def l0 Let_def
    using t[of _ "- memory_size m"]
    by (auto simp add: wrapped_indexes_ok[OF assms(3)] assms(1) l1 trim_cols_def)
qed

lemma Cognifly_first_append:
  assumes "data m = []" and "11 \<le> min_samples m" and "memory_size m \<noteq> 0"
  shows "\<exists>m'. Cognifly_append_buffer buffer m = Inr m' \<and> length (data m') = 11
               \<and> min_samples m' = min_samples m"
proof -
  have l0: "Cognifly_len m = Inr 0"
    using assms by (simp add: Cognifly_len_few_columns)
  have l1: "\<And>dat. length dat = 11 \<Longrightarrow> Cognifly_len (m\<lparr>data := dat\<rparr>) = Inr 0"
    using assms(2) by (simp add: Cognifly_len_few_columns)
  show ?thesis
    unfolding Cognifly_append_buffer_def l0 Let_def
    by (auto simp add: wrapped_indexes_ok[OF assms(3)] assms(1) l1 trim_cols_def)
qed

text \<open>
  \<^verbatim>\<open>MemoryTM2020.__len__\<close> and \<^verbatim>\<open>MemoryCognifly.__len__\<close> return 0 whenever the number
  of columns is less than \<open>min_samples + 1\<close>, and the first append to a memory without
  columns creates 8 columns (11 for \<^verbatim>\<open>MemoryCognifly\<close>).
\<close>

lemma len_counts_columns:
  "(int (length (data m)) < min_samples m + 1 \<longrightarrow> TM2020_len m = Inr 0 \<and> Cognifly_len m = Inr 0)
   \<and> (data m20 = [] \<and> 8 \<le> min_samples m20 \<and> memory_size m20 \<noteq> 0 \<longrightarrow>
        columns_and_len TM2020_len (TM2020_append_buffer buffer20 m20) = Inr (8, 0))
   \<and> (data mc = [] \<and> 11 \<le> min_samples mc \<and> memory_size mc \<noteq> 0 \<longrightarrow>
        columns_and_len Cognifly_len (Cognifly_append_buffer bufferc mc) = Inr (11, 0))"
proof (intro conjI impI)
  assume "int (length (data m)) < min_samples m + 1"
  then show "TM2020_len m = Inr 0" "Cognifly_len m = Inr 0"
    by (simp_all add: TM2020_len_few_columns Cognifly_len_few_columns)
next
  assume a: "data m20 = [] \<and> 8 \<le> min_samples m20 \<and> memory_size m20 \<noteq> 0"
  then obtain m' where m': "TM2020_append_buffer buffer20 m20 = Inr m'"
      "length (data m') = 8" "min_samples m' = min_samples m20"
    using TM2020_first_append[of m20 buffer20] by blast
  then have "TM2020_len m' = Inr 0"
    using a by (simp add: TM2020_len_few_columns)
  then show "columns_and_len TM2020_len (TM2020_append_buffer buffer20 m20) = Inr (8, 0)"
    using m' by (simp add: columns_and_len_def)
next
  assume a: "data mc = [] \<and> 11 \<le> min_samples mc \<and> memory_size mc \<noteq> 0"
  then obtain m' where m': "Cognifly_append_buffer bufferc mc = Inr m'"
      "length (data m') = 11" "min_samples m' = min_samples mc"
    using Cognifly_first_append[of mc bufferc] by blast
  then have "Cognifly_len m' = Inr 0"
    using a by (simp add: Cognifly_len_few_columns)
  then show "columns_and_len Cognifly_len (Cognifly_append_buffer bufferc mc) = Inr (11, 0)"
    using m' by (simp add: columns_and_len_def)
qed

text \<open>
  Claim C10. With at most 8 columns, a \<^verbatim>\<open>MemoryTM2020\<close> with \<open>imgs_obs \<ge> 8\<close> should
  report length 0 whatever it stores. The code does so after the first append (ten
  samples, \<open>imgs_obs = 8\<close>: 8 columns, length 0); the second append finds the length 0,
  takes the branch that creates the columns and adds eight more, and with sixteen
  columns the length is \<open>10 - 8 - 1 = 1\<close>.
\<close>

theorem second_append_adds_columns_tm2020:
  "columns_and_len TM2020_len
     (TM2020_append_buffer (map labelled_sample_tm20 [0..<10]) (MemoryTM2020_init 100 8 1))
     = Inr (8, 0)
   \<and> columns_and_len TM2020_len
       (after (TM2020_append_buffer (map labelled_sample_tm20 [0..<10])
                 (MemoryTM2020_init 100 8 1))
          (TM2020_append_buffer (map labelled_sample_tm20 [10..<11])))
     = Inr (16, 1)"
  by code_simp

lemma round_half_even_lower: "of_int n \<le> x \<Longrightarrow> n \<le> round_half_even x"
  unfolding round_half_even_def Let_def by (auto simp: le_floor_iff) linarith+

lemma round_half_even_upper: "x \<le> of_int n \<Longrightarrow> round_half_even x \<le> n"
  unfolding round_half_even_def Let_def
  by (auto simp: floor_le_iff) 

lemma round_half_even_mono: "x \<le> y \<Longrightarrow> round_half_even x \<le> round_half_even y"
proof (cases "\<lfloor>x\<rfloor> = \<lfloor>y\<rfloor>")
  case True
  assume "x \<le> y"
  then show ?thesis
    unfolding round_half_even_def Let_def True by auto
next
  case False
  assume "x \<le> y"
  then have "\<lfloor>x\<rfloor> + 1 \<le> \<lfloor>y\<rfloor>"
    using False floor_mono[of x y] by linarith
  moreover have "round_half_even x \<le> \<lfloor>x\<rfloor> + 1"
    by (intro round_half_even_upper) linarith
  moreover have "\<lfloor>y\<rfloor> \<le> round_half_even y"
    by (intro round_half_even_lower) simp
  ultimately show ?thesis by linarith
qed

lemma binade_bounds:
  assumes "0 < x"
  shows "2 powi binade x \<le> x" and "x < 2 powi (binade x + 1)"
proof -
  obtain a b where q: "quotient_of x = (a, b)" by (cases "quotient_of x")
  have b: "0 < b" using q by (rule quotient_of_denom_pos)
  have x: "x = of_int a / of_int b" using q by (rule quotient_of_div)
  have a: "0 < a" using assms b unfolding x by (simp add: zero_less_divide_iff)
  let ?la = "bitlen a" and ?lb = "bitlen b"
  have la: "1 \<le> ?la" "1 \<le> ?lb"
    using a b bitlen_eq_zero_iff[of a] bitlen_eq_zero_iff[of b] bitlen_nonneg[of a] bitlen_nonneg[of b]
    by linarith+
  have ba: "(2::rat) powi (?la - 1) \<le> of_int a" "of_int a < (2::rat) powi ?la"
  proof -
    have "2 ^ nat (?la - 1) \<le> a" "a < 2 ^ nat ?la"
      using bitlen_bounds[OF a] by blast+
    then have "(of_int (2 ^ nat (?la - 1)) :: rat) \<le> of_int a" "(of_int a :: rat) < of_int (2 ^ nat ?la)"
      by (simp_all only: of_int_le_iff of_int_less_iff)
    then show "(2::rat) powi (?la - 1) \<le> of_int a" "of_int a < (2::rat) powi ?la"
      using la by (simp_all add: power_int_def)
  qed
  have bb: "(2::rat) powi (?lb - 1) \<le> of_int b" "of_int b < (2::rat) powi ?lb"
  proof -
    have "2 ^ nat (?lb - 1) \<le> b" "b < 2 ^ nat ?lb"
      using bitlen_bounds[OF b] by blast+
    then have "(of_int (2 ^ nat (?lb - 1)) :: rat) \<le> of_int b" "(of_int b :: rat) < of_int (2 ^ nat ?lb)"
      by (simp_all only: of_int_le_iff of_int_less_iff)
    then show "(2::rat) powi (?lb - 1) \<le> of_int b" "of_int b < (2::rat) powi ?lb"
      using la by (simp_all add: power_int_def)
  qed
  let ?d = "?la - ?lb"
  have lo: "(2::rat) powi (?d - 1) \<le> x"
  proof -
    have "(2::rat) powi (?d - 1) * of_int b \<le> 2 powi (?d - 1) * 2 powi ?lb"
      using bb(2) by (intro mult_left_mono) simp_all
    also have "\<dots> = 2 powi (?la - 1)"
      by (simp flip: power_int_add)
    also have "\<dots> \<le> of_int a" by (rule ba(1))
    finally show ?thesis
      using b unfolding x by (simp add: pos_le_divide_eq)
  qed
  have hi: "x < (2::rat) powi (?d + 1)"
  proof -
    have "of_int a < (2::rat) powi ?la" by (rule ba(2))
    also have "\<dots> = 2 powi (?d + 1) * 2 powi (?lb - 1)"
      by (simp flip: power_int_add)
    also have "\<dots> \<le> 2 powi (?d + 1) * of_int b"
      using bb(1) by (intro mult_left_mono) simp_all
    finally show ?thesis
      using b unfolding x by (simp add: pos_divide_less_eq)
  qed
  have e: "binade x = (if 2 powi ?d \<le> x then ?d else ?d - 1)"
    by (simp add: binade_def q)
  show "2 powi binade x \<le> x" "x < 2 powi (binade x + 1)"
    using lo hi unfolding e by (auto simp: not_le)
qed

lemma binade_mono:
  assumes "0 < x" and "x \<le> y"
  shows "binade x \<le> binade y"
proof (rule ccontr)
  assume "\<not> binade x \<le> binade y"
  then have "binade y + 1 \<le> binade x" by simp
  then have "(2::rat) powi (binade y + 1) \<le> 2 powi binade x"
    by (intro power_int_increasing) simp_all
  moreover have "y < 2 powi (binade y + 1)" "2 powi binade x \<le> x"
    using assms binade_bounds[of x] binade_bounds[of y] by simp_all
  ultimately show False using assms(2) by linarith
qed

lemma round_double_nonneg: "0 \<le> x \<Longrightarrow> 0 \<le> round_double x"
proof -
  assume x: "0 \<le> x"
  let ?q = "(2::rat) powi (max (binade x) (- 1022) - 52)"
  have q: "0 < ?q" by simp
  have "0 \<le> x / ?q" using x q by simp
  then have "0 \<le> round_half_even (x / ?q)"
    by (intro round_half_even_lower) simp
  then show ?thesis
    using q by (simp add: round_double_def Let_def)
qed

lemma round_double_mono:
  assumes "0 \<le> x" and "x \<le> y"
  shows "round_double x \<le> round_double y"
proof (cases "x = 0")
  case True
  then show ?thesis
    using assms round_double_nonneg[of y] by (simp add: round_double_def)
next
  case False
  then have x: "0 < x" and y: "0 < y" using assms by simp_all
  let ?ex = "max (binade x) (- 1022)" and ?ey = "max (binade y) (- 1022)"
  let ?qx = "(2::rat) powi (?ex - 52)" and ?qy = "(2::rat) powi (?ey - 52)"
  have rx: "round_double x = of_int (round_half_even (x / ?qx)) * ?qx"
    using x by (simp add: round_double_def Let_def)
  have ry: "round_double y = of_int (round_half_even (y / ?qy)) * ?qy"
    using y by (simp add: round_double_def Let_def)
  have le: "?ex \<le> ?ey"
    using binade_mono[OF x assms(2)] by simp
  show ?thesis
  proof (cases "?ex = ?ey")
    case True
    have "x / ?qx \<le> y / ?qx"
      using assms(2) by (intro divide_right_mono) simp_all
    then have "round_half_even (x / ?qx) \<le> round_half_even (y / ?qx)"
      by (rule round_half_even_mono)
    then have "(of_int (round_half_even (x / ?qx)) :: rat) * ?qx
                \<le> of_int (round_half_even (y / ?qx)) * ?qx"
      by (intro mult_right_mono) simp_all
    then show ?thesis
      unfolding rx ry True .
  next
    case False
    then have lt: "?ex + 1 \<le> ?ey" using le by simp
    then have ey: "?ey = binade y" by (simp add: max_def split: if_splits)
    have p53: "(2::rat) powi (?ex + 1) = of_int (2 ^ 53) * ?qx"
    proof -
      have "(2::rat) powi (53 + (?ex - 52)) = 2 powi 53 * 2 powi (?ex - 52)"
        by (rule power_int_add) simp
      moreover have "53 + (?ex - 52) = ?ex + 1" by simp
      ultimately show ?thesis by simp
    qed
    have p52: "(2::rat) powi ?ey = of_int (2 ^ 52) * ?qy"
    proof -
      have "(2::rat) powi (52 + (?ey - 52)) = 2 powi 52 * 2 powi (?ey - 52)"
        by (rule power_int_add) simp
      moreover have "52 + (?ey - 52) = ?ey" by simp
      ultimately show ?thesis by simp
    qed
    have "x < 2 powi (binade x + 1)"
      using binade_bounds[OF x] by simp
    also have "\<dots> \<le> 2 powi (?ex + 1)"
      by (intro power_int_increasing) simp_all
    finally have "x \<le> of_int (2 ^ 53) * ?qx"
      unfolding p53 by simp
    then have "x / ?qx \<le> of_int (2 ^ 53)"
      by (simp add: pos_divide_le_eq)
    then have "round_half_even (x / ?qx) \<le> 2 ^ 53"
      by (rule round_half_even_upper)
    then have "(of_int (round_half_even (x / ?qx)) :: rat) \<le> of_int (2 ^ 53)"
      by (simp only: of_int_le_iff)
    then have "round_double x \<le> of_int (2 ^ 53) * ?qx"
      unfolding rx by (intro mult_right_mono) simp_all
    also have "\<dots> = 2 powi (?ex + 1)" by (simp only: p53)
    also have "\<dots> \<le> 2 powi ?ey"
      using lt by (intro power_int_increasing) simp_all
    also have "\<dots> \<le> round_double y"
    proof -
      have "2 powi ?ey \<le> y"
        using binade_bounds[OF y] by (simp only: ey)
      then have "of_int (2 ^ 52) \<le> y / ?qy"
        unfolding p52 by (simp add: pos_le_divide_eq)
      then have "2 ^ 52 \<le> round_half_even (y / ?qy)"
        by (rule round_half_even_lower)
      then have "(of_int (2 ^ 52) :: rat) \<le> of_int (round_half_even (y / ?qy))"
        by (simp only: of_int_le_iff)
      then have "of_int (2 ^ 52) * ?qy \<le> round_double y"
        unfolding ry by (intro mult_right_mono) simp_all
      then show ?thesis by (simp only: p52)
    qed
    finally show ?thesis .
  qed
qed

lemma float_div_of_nonneg:
  assumes "0 \<le> a" and "0 < b"
  shows "float_div a b =
           (if 2 powi 1024 \<le> round_double (of_int a / of_int b) then Inl OverflowError
            else Inr (round_double (of_int a / of_int b)))"
proof -
  have x: "(0::rat) \<le> of_int a / of_int b" using assms by simp
  then have "\<bar>of_int a / of_int b :: rat\<bar> = of_int a / of_int b"
      "\<not> (of_int a / of_int b :: rat) < 0"
    by (simp_all only: abs_of_nonneg not_less)
  then show ?thesis
    using assms(2) unfolding float_div_def Let_def by (simp only: if_False) simp
qed

lemma float_div_nonneg:
  assumes "0 \<le> a" and "0 < b" and "float_div a b = Inr q"
  shows "0 \<le> q"
proof -
  have x: "(0::rat) \<le> of_int a / of_int b" using assms(1,2) by simp
  have "q = round_double (of_int a / of_int b)"
    using assms(3) unfolding float_div_of_nonneg[OF assms(1,2)] by (simp split: if_splits)
  then show ?thesis using round_double_nonneg[OF x] by simp
qed

lemma float_div_more_samples:
  assumes "0 \<le> a" and "0 < b" and "b \<le> b'" and "float_div a b = Inr q"
  shows "\<exists>q'. float_div a b' = Inr q' \<and> q' \<le> q"
proof -
  let ?x = "of_int a / of_int b :: rat" and ?x' = "of_int a / of_int b' :: rat"
  have b': "0 < b'" using assms(2,3) by simp
  have x: "0 \<le> ?x" "0 \<le> ?x'" using assms(1-3) by simp_all
  have le: "?x' \<le> ?x"
    using assms(1-3) by (intro divide_left_mono) simp_all
  have q: "q = round_double ?x" "\<not> 2 powi 1024 \<le> round_double ?x"
    using assms(4) unfolding float_div_of_nonneg[OF assms(1,2)] by (simp_all split: if_splits)
  have m: "round_double ?x' \<le> round_double ?x"
    using x(2) le by (rule round_double_mono)
  then have "\<not> 2 powi 1024 \<le> round_double ?x'"
    using q(2) by linarith
  then have "float_div a b' = Inr (round_double ?x')"
    unfolding float_div_of_nonneg[OF assms(1) b'] by (simp only: if_False)
  then show ?thesis using m q(1) by simp
qed


section \<open>The ratio check of the trainer\<close>

lemma update_buffer_fields:
  assumes "update_buffer app buffer t = Inr t'"
  shows "total_updates t' = total_updates t"
    and "total_samples t' = total_samples t + int (length buffer)"
    and "max_training_steps_per_env_step t' = max_training_steps_per_env_step t"
    and "update_model_interval t' = update_model_interval t"
    and "sleeps t' = sleeps t" and "observed t' = observed t"
  using assms by (auto simp: update_buffer_def after_def split: sum.splits)

lemma waiting_cong:
  "total_samples t' = total_samples t \<Longrightarrow> total_updates t' = total_updates t \<Longrightarrow>
   max_training_steps_per_env_step t' = max_training_steps_per_env_step t \<Longrightarrow>
   waiting t' = waiting t"
  by (simp add: waiting_def ratio_def)

lemma waiting_no_samples: "total_samples t \<le> 0 \<Longrightarrow> waiting t = Inr True"
  by (simp add: waiting_def ratio_def)

lemma waiting_by_ratio:
  assumes "0 < total_samples t" and "0 \<le> total_updates t"
    and "float_div (total_updates t) (total_samples t) = Inr q"
  shows "waiting t = Inr (max_training_steps_per_env_step t < q)"
proof -
  have "0 \<le> q" using float_div_nonneg[OF assms(2,1,3)] .
  then have "q \<noteq> - 1" by simp
  then show ?thesis using assms(1,3) by (simp add: waiting_def ratio_def)
qed

lemma calm_iff:
  "waiting t = Inr False \<longleftrightarrow>
   in_bound (max_training_steps_per_env_step t) (total_updates t) (total_samples t)"
  by (cases "float_div (total_updates t) (total_samples t)")
    (auto simp: waiting_def ratio_def in_bound_def)

lemma in_bound_more_samples:
  assumes "in_bound b u s" and "0 \<le> u" and "s \<le> s'"
  shows "in_bound b u s'"
proof -
  from assms(1) obtain q where q: "0 < s" "float_div u s = Inr q" "q \<le> b"
    by (auto simp: in_bound_def split: sum.splits)
  obtain q' where q': "float_div u s' = Inr q'" "q' \<le> q"
    using float_div_more_samples[OF assms(2) q(1) assms(3) q(2)] by blast
  have "0 < s'" using q(1) assms(3) by simp
  moreover have "0 \<le> q'" using float_div_nonneg[OF assms(2) \<open>0 < s'\<close> q'(1)] .
  ultimately show ?thesis using q' q(3) by (simp add: in_bound_def)
qed

lemma delivered_Cons:
  "delivered (buffer # rest) (Suc k) = int (length buffer) + delivered rest k"
  by (simp add: delivered_def)

lemma polling_post:
  assumes "polling app bufs t = r"
  shows "(\<forall>t' rest. r = Returned (t', rest) \<longrightarrow>
            waiting t' = Inr False \<and> total_updates t' = total_updates t
            \<and> observed t' = observed t
            \<and> total_samples t' = total_samples t + delivered bufs (length bufs - length rest)
            \<and> max_training_steps_per_env_step t' = max_training_steps_per_env_step t
            \<and> update_model_interval t' = update_model_interval t
            \<and> length rest < length bufs
            \<and> sleeps t' + 1 = sleeps t + (length bufs - length rest)) \<and>
         (\<forall>t' rest. r = Awaiting (t', rest) \<longrightarrow>
            total_updates t' = total_updates t \<and> observed t' = observed t
            \<and> total_samples t' = total_samples t + delivered bufs (length bufs)
            \<and> max_training_steps_per_env_step t' = max_training_steps_per_env_step t
            \<and> rest = [] \<and> sleeps t' = sleeps t + length bufs
            \<and> (bufs \<noteq> [] \<longrightarrow> waiting t' = Inr True))"
  using assms
proof (induction bufs arbitrary: t r)
  case Nil
  then show ?case by (auto simp: delivered_def)
next
  case (Cons buffer rest0)
  show ?case
  proof (cases "update_buffer app buffer t")
    case (Inl e)
    then show ?thesis using Cons.prems by auto
  next
    case (Inr t1)
    note f = update_buffer_fields[OF Inr]
    show ?thesis
    proof (cases "waiting t1")
      case (Inl e)
      then show ?thesis using Cons.prems Inr by auto
    next
      case w: (Inr w)
      show ?thesis
      proof (cases w)
        case False
        then have "r = Returned (t1, rest0)"
          using Cons.prems Inr w by simp
        then show ?thesis
          using f w False by (auto simp: delivered_def)
      next
        case True
        let ?t2 = "t1\<lparr>sleeps := Suc (sleeps t1)\<rparr>"
        have w2: "waiting ?t2 = Inr True"
          using w True waiting_cong[of ?t2 t1] by simp
        have r: "polling app rest0 ?t2 = r"
          using Cons.prems Inr w True by simp
        note ih = Cons.IH[OF r]
        have A: "waiting t' = Inr False \<and> total_updates t' = total_updates t
            \<and> observed t' = observed t
            \<and> total_samples t' = total_samples t
                 + delivered (buffer # rest0) (length (buffer # rest0) - length rest)
            \<and> max_training_steps_per_env_step t' = max_training_steps_per_env_step t
            \<and> update_model_interval t' = update_model_interval t
            \<and> length rest < length (buffer # rest0)
            \<and> sleeps t' + 1 = sleeps t + (length (buffer # rest0) - length rest)"
          if a: "r = Returned (t', rest)" for t' rest
        proof -
          from a have h: "waiting t' = Inr False" "total_updates t' = total_updates ?t2"
            "observed t' = observed ?t2" "length rest < length rest0"
            "total_samples t' = total_samples ?t2 + delivered rest0 (length rest0 - length rest)"
            "max_training_steps_per_env_step t' = max_training_steps_per_env_step ?t2"
            "update_model_interval t' = update_model_interval ?t2"
            "sleeps t' + 1 = sleeps ?t2 + (length rest0 - length rest)"
            using ih by blast+
          have k: "length (buffer # rest0) - length rest = Suc (length rest0 - length rest)"
            using h(4) by simp
          show ?thesis
            unfolding k delivered_Cons using h f by auto
        qed
        have B: "total_updates t' = total_updates t \<and> observed t' = observed t
            \<and> total_samples t' = total_samples t
                 + delivered (buffer # rest0) (length (buffer # rest0))
            \<and> max_training_steps_per_env_step t' = max_training_steps_per_env_step t
            \<and> rest = [] \<and> sleeps t' = sleeps t + length (buffer # rest0)
            \<and> (buffer # rest0 \<noteq> [] \<longrightarrow> waiting t' = Inr True)"
          if a: "r = Awaiting (t', rest)" for t' rest
        proof -
          from a have h: "total_updates t' = total_updates ?t2"
            "observed t' = observed ?t2"
            "total_samples t' = total_samples ?t2 + delivered rest0 (length rest0)"
            "max_training_steps_per_env_step t' = max_training_steps_per_env_step ?t2"
            "rest = []" "sleeps t' = sleeps ?t2 + length rest0"
            "rest0 \<noteq> [] \<longrightarrow> waiting t' = Inr True"
            using ih by blast+
          have "waiting t' = Inr True"
          proof (cases rest0)
            case Nil
            then have "t' = ?t2" using r a by simp
            then show ?thesis using w2 by simp
          next
            case (Cons x xs)
            then show ?thesis using h(7) by simp
          qed
          moreover have "length (buffer # rest0) = Suc (length rest0)" by simp
          ultimately show ?thesis
            using h f unfolding \<open>length (buffer # rest0) = Suc (length rest0)\<close> delivered_Cons
            by auto
        qed
        show ?thesis using A B by blast
      qed
    qed
  qed
qed

lemma check_ratio_post:
  assumes "check_ratio app bufs t = r"
  shows "(\<forall>t' rest. r = Returned (t', rest) \<longrightarrow>
            waiting t' = Inr False \<and> total_updates t' = total_updates t
            \<and> observed t' = observed t
            \<and> total_samples t' = total_samples t + delivered bufs (length bufs - length rest)
            \<and> max_training_steps_per_env_step t' = max_training_steps_per_env_step t
            \<and> update_model_interval t' = update_model_interval t
            \<and> (if waiting t = Inr True
                then sleeps t' + 1 = sleeps t + (length bufs - length rest)
                else t' = t \<and> rest = bufs)) \<and>
         (\<forall>t' rest. r = Awaiting (t', rest) \<longrightarrow>
            waiting t = Inr True \<and> waiting t' = Inr True
            \<and> total_updates t' = total_updates t \<and> observed t' = observed t
            \<and> total_samples t' = total_samples t + delivered bufs (length bufs)
            \<and> max_training_steps_per_env_step t' = max_training_steps_per_env_step t
            \<and> rest = [] \<and> sleeps t' = sleeps t + length bufs)"
proof (cases "waiting t")
  case (Inl e)
  then show ?thesis using assms by (auto simp: check_ratio_def)
next
  case w: (Inr w)
  show ?thesis
  proof (cases w)
    case False
    then have "r = Returned (t, bufs)"
      using assms w by (simp add: check_ratio_def)
    then show ?thesis using w False by (auto simp: delivered_def)
  next
    case True
    then have p: "polling app bufs t = r"
      using assms w by (simp add: check_ratio_def)
    note post = polling_post[OF p]
    have wt: "waiting t = Inr True" using w True by simp
    have "waiting t' = Inr True" if a: "r = Awaiting (t', rest)" for t' rest
    proof (cases bufs)
      case Nil
      then have "t' = t" using p a by simp
      then show ?thesis using wt by simp
    next
      case (Cons x xs)
      then show ?thesis using post a by blast
    qed
    then show ?thesis using post wt by auto
  qed
qed

lemma more_samples_keep_pace:
  assumes "waiting t = Inr False" and "0 \<le> total_updates t"
    and "total_updates t' = total_updates t" and "total_samples t \<le> total_samples t'"
    and "max_training_steps_per_env_step t' = max_training_steps_per_env_step t"
  shows "waiting t' = Inr False"
  using assms in_bound_more_samples[of "max_training_steps_per_env_step t" "total_updates t"
      "total_samples t" "total_samples t'"]
  by (simp add: calm_iff)

lemma waiting_defined:
  assumes "0 \<le> total_updates t" and "float_div (total_updates t) 1 = Inr q0"
  shows "\<exists>w. waiting t = Inr w"
proof (cases "0 < total_samples t")
  case True
  then have "1 \<le> total_samples t" by simp
  then obtain q where "float_div (total_updates t) (total_samples t) = Inr q"
    using float_div_more_samples[OF assms(1) _ _ assms(2), of "total_samples t"] by auto
  then show ?thesis using True by (simp add: waiting_def ratio_def after_def)
next
  case False
  then have "waiting t = Inr True" by (simp add: waiting_no_samples)
  then show ?thesis by blast
qed

lemma polling_returns:
  assumes inv: "\<And>b m. I m \<Longrightarrow> \<exists>m'. app b m = Inr m' \<and> I m'"
    and "I (memory t)" and "0 \<le> total_updates t"
    and "float_div (total_updates t) 1 = Inr q0"
    and "k \<le> length bufs" and "1 \<le> k"
    and "in_bound (max_training_steps_per_env_step t) (total_updates t)
           (total_samples t + delivered bufs k)"
  shows "\<exists>t' rest. polling app bufs t = Returned (t', rest) \<and> I (memory t')
           \<and> length bufs - length rest \<le> k"
  using assms(2-)
proof (induction bufs arbitrary: t k)
  case Nil
  then show ?case by simp
next
  case (Cons buffer rest0)
  obtain m' where m': "app buffer (memory t) = Inr m'" "I m'"
    using inv[OF Cons.prems(1)] by blast
  then have "update_buffer app buffer t
      = Inr (t\<lparr>memory := m', total_samples := total_samples t + int (length buffer)\<rparr>)"
    by (simp add: update_buffer_def after_def)
  then obtain t1 where t1: "update_buffer app buffer t = Inr t1" and mem1: "memory t1 = m'"
    by simp
  note f = update_buffer_fields[OF t1]
  obtain k' where k': "k = Suc k'"
    using Cons.prems(5) by (cases k) auto
  have d: "delivered (buffer # rest0) k = int (length buffer) + delivered rest0 k'"
    unfolding k' by (rule delivered_Cons)
  obtain w where w: "waiting t1 = Inr w"
    using waiting_defined[of t1 q0] Cons.prems(2,3) f(1) by auto
  show ?case
  proof (cases w)
    case False
    then have "polling app (buffer # rest0) t = Returned (t1, rest0)"
      using t1 w by simp
    then show ?thesis using mem1 m'(2) k' by simp
  next
    case True
    let ?t2 = "t1\<lparr>sleeps := Suc (sleeps t1)\<rparr>"
    have p: "polling app (buffer # rest0) t = polling app rest0 ?t2"
      using t1 w True by simp
    have b: "in_bound (max_training_steps_per_env_step ?t2) (total_updates ?t2)
               (total_samples ?t2 + delivered rest0 k')"
      using Cons.prems(6) f d by (simp add: add.assoc)
    have "k' \<noteq> 0"
    proof
      assume "k' = 0"
      then have "in_bound (max_training_steps_per_env_step t1) (total_updates t1) (total_samples t1)"
        using b by (simp add: delivered_def)
      then have "waiting t1 = Inr False" by (simp add: calm_iff)
      then show False using w True by simp
    qed
    then have k1: "1 \<le> k'" by simp
    have "\<exists>t' rest. polling app rest0 ?t2 = Returned (t', rest) \<and> I (memory t')
           \<and> length rest0 - length rest \<le> k'"
      using Cons.prems(2,3,4) f mem1 m'(2) k' k1 b
      by (intro Cons.IH[of ?t2 k']) simp_all
    then obtain t' rest where r: "polling app rest0 ?t2 = Returned (t', rest)" "I (memory t')"
        "length rest0 - length rest \<le> k'"
      by blast
    have "length (buffer # rest0) - length rest \<le> k"
      using r(3) k' by simp
    then show ?thesis using p r(1,2) by auto
  qed
qed

lemma check_ratio_returns:
  assumes inv: "\<And>b m. I m \<Longrightarrow> \<exists>m'. app b m = Inr m' \<and> I m'"
    and "I (memory t)" and "0 \<le> total_updates t"
    and "float_div (total_updates t) 1 = Inr q0"
    and "k \<le> length bufs"
    and "in_bound (max_training_steps_per_env_step t) (total_updates t)
           (total_samples t + delivered bufs k)"
  shows "\<exists>t' rest. check_ratio app bufs t = Returned (t', rest) \<and> I (memory t')
           \<and> length bufs - length rest \<le> k"
proof -
  obtain w where w: "waiting t = Inr w"
    using waiting_defined[OF assms(3,4)] by blast
  show ?thesis
  proof (cases w)
    case False
    then show ?thesis using w assms(2) by (simp add: check_ratio_def)
  next
    case True
    have "k \<noteq> 0"
    proof
      assume "k = 0"
      then have "waiting t = Inr False"
        using assms(6) by (simp add: calm_iff delivered_def)
      then show False using w True by simp
    qed
    then have "1 \<le> k" by simp
    from polling_returns[of I app, OF inv assms(2,3,4,5) this assms(6)]
    show ?thesis using w True by (simp add: check_ratio_def)
  qed
qed


lemma paced_before:
  "waiting t = Inr False \<Longrightarrow>
   paced (max_training_steps_per_env_step t) (Before_step, total_updates t, total_samples t)"
  by (simp add: paced_def calm_iff)

lemma paced_after:
  "waiting t = Inr False \<Longrightarrow>
   paced (max_training_steps_per_env_step t) (After_step, total_updates t + 1, total_samples t)"
  by (simp add: paced_def calm_iff)

lemma check_ratio_keeps:
  assumes "check_ratio app bufs t = r" and "on_pace t" and "final_state r = Some t'"
  shows "on_pace t' \<and> max_training_steps_per_env_step t' = max_training_steps_per_env_step t
         \<and> (\<forall>rest. r = Returned (t', rest) \<longrightarrow> waiting t' = Inr False)"
proof -
  note post = check_ratio_post[OF assms(1)]
  show ?thesis
  proof (cases r)
    case (Returned x)
    obtain t1 rest where x: "x = (t1, rest)" by (cases x)
    have "t' = t1" using assms(3) Returned x by (simp add: final_state_def)
    then show ?thesis
      using post Returned x assms(2) unfolding on_pace_def by auto
  next
    case (Raised e)
    then show ?thesis using assms(3) by (simp add: final_state_def)
  next
    case (Awaiting x)
    obtain t1 rest where x: "x = (t1, rest)" by (cases x)
    have "t' = t1" using assms(3) Awaiting x by (simp add: final_state_def)
    then show ?thesis
      using post Awaiting x assms(2) unfolding on_pace_def by auto
  qed
qed

lemma train_batches_inv:
  assumes "train_batches app n bufs t = r" and "waiting t = Inr False" and "on_pace t"
    and "final_state r = Some t'"
  shows "on_pace t' \<and> max_training_steps_per_env_step t' = max_training_steps_per_env_step t
         \<and> (\<forall>rest. r = Returned (t', rest) \<longrightarrow> waiting t' = Inr False)"
  using assms
proof (induction n arbitrary: t bufs)
  case 0
  then show ?case by (auto simp: final_state_def)
next
  case (Suc n)
  let ?b = "max_training_steps_per_env_step t"
  let ?t3 = "observe After_step
               ((observe Before_step t)\<lparr>total_updates := total_updates (observe Before_step t) + 1\<rparr>)"
  let ?t4 = "if total_updates ?t3 mod update_model_interval ?t3 = 0
             then ?t3\<lparr>broadcasts := Suc (broadcasts ?t3)\<rparr> else ?t3"
  have i3: "update_model_interval ?t3 = update_model_interval t"
    by (simp add: observe_def)
  have unf: "(if update_model_interval ?t3 = 0 then Raised ZeroDivisionError
        else case check_ratio app bufs ?t4 of
               Returned (t5, rest) \<Rightarrow> train_batches app n rest t5
             | Raised e \<Rightarrow> Raised e
             | Awaiting x \<Rightarrow> Awaiting x) = r"
    using Suc.prems(1) by (simp only: train_batches.simps Let_def)
  have nz: "update_model_interval t \<noteq> 0"
  proof
    assume "update_model_interval t = 0"
    then have "r = Raised ZeroDivisionError"
      using unf by (simp add: i3)
    then show False using Suc.prems(4) by (simp add: final_state_def)
  qed
  have r: "(case check_ratio app bufs ?t4 of
               Returned (t5, rest) \<Rightarrow> train_batches app n rest t5
             | Raised e \<Rightarrow> Raised e
             | Awaiting x \<Rightarrow> Awaiting x) = r"
    using unf by (simp only: i3 nz if_False)
  have t4: "observed ?t4 = observed t @ [(Before_step, total_updates t, total_samples t),
                                          (After_step, total_updates t + 1, total_samples t)]"
      "total_updates ?t4 = total_updates t + 1"
      "max_training_steps_per_env_step ?t4 = ?b"
    by (simp_all add: observe_def)
  have p4: "on_pace ?t4"
    unfolding on_pace_def t4
    using Suc.prems(2,3) paced_before[of t] paced_after[of t] by (simp add: on_pace_def)
  show ?case
  proof (cases "check_ratio app bufs ?t4")
    case (Returned x)
    obtain t5 rest where x: "x = (t5, rest)" by (cases x)
    have c: "check_ratio app bufs ?t4 = Returned (t5, rest)"
      using Returned x by simp
    have f5: "final_state (Returned (t5, rest)) = Some t5"
      by (simp add: final_state_def)
    have h: "on_pace t5"
      "max_training_steps_per_env_step t5 = max_training_steps_per_env_step ?t4"
      "waiting t5 = Inr False"
      using check_ratio_keeps[OF c p4 f5] by blast+
    have "train_batches app n rest t5 = r"
      using r by (simp only: Returned x run.case prod.case)
    from Suc.IH[OF this h(3) h(1) Suc.prems(4)] show ?thesis
      using h(2) t4(3) by simp
  next
    case (Raised e)
    have "r = Raised e"
      using r by (simp only: Raised run.case)
    then show ?thesis using Suc.prems(4) by (simp add: final_state_def)
  next
    case (Awaiting x)
    have r': "r = Awaiting x"
      using r by (simp only: Awaiting run.case)
    have "on_pace t' \<and> max_training_steps_per_env_step t' = max_training_steps_per_env_step ?t4"
      using check_ratio_keeps[OF Awaiting p4] Suc.prems(4) unfolding r' by blast
    then show ?thesis
      using t4(3) r' by simp
  qed
qed

lemma run_round_inv:
  assumes "run_round app n bufs t = r" and "on_pace t" and "final_state r = Some t'"
  shows "on_pace t' \<and> max_training_steps_per_env_step t' = max_training_steps_per_env_step t"
proof (cases "check_ratio app bufs t")
  case (Returned x)
  obtain t1 rest where x: "x = (t1, rest)" by (cases x)
  have c: "check_ratio app bufs t = Returned (t1, rest)"
    using Returned x by simp
  have f1: "final_state (Returned (t1, rest)) = Some t1"
    by (simp add: final_state_def)
  have h1: "on_pace t1" "max_training_steps_per_env_step t1 = max_training_steps_per_env_step t"
      "waiting t1 = Inr False"
    using check_ratio_keeps[OF c assms(2) f1] by blast+
  show ?thesis
  proof (cases rest)
    case Nil
    then have "r = Awaiting (t1, [])"
      using assms(1) c by (simp add: run_round_def)
    then have "t' = t1" using assms(3) by (simp add: final_state_def)
    then show ?thesis using h1 by simp
  next
    case (Cons buffer rest')
    show ?thesis
    proof (cases "update_buffer app buffer t1")
      case (Inl e)
      then have "r = Raised e"
        using assms(1) c Cons by (simp add: run_round_def)
      then show ?thesis using assms(3) by (simp add: final_state_def)
    next
      case (Inr t2)
      note f = update_buffer_fields[OF Inr]
      have w2: "waiting t2 = Inr False"
        using h1 f by (intro more_samples_keep_pace[of t1 t2]) (simp_all add: on_pace_def)
      have p2: "on_pace t2"
        using h1(1) f unfolding on_pace_def by simp
      have "train_batches app n rest' t2 = r"
        using assms(1) c Cons Inr by (simp add: run_round_def)
      from train_batches_inv[OF this w2 p2 assms(3)] show ?thesis
        using f(3) h1(2) by simp
    qed
  qed
next
  case (Raised e)
  then have "r = Raised e" using assms(1) by (simp add: run_round_def)
  then show ?thesis using assms(3) by (simp add: final_state_def)
next
  case (Awaiting x)
  then have r: "r = Awaiting x" using assms(1) by (simp add: run_round_def)
  show ?thesis
    using check_ratio_keeps[OF Awaiting assms(2)] assms(3) unfolding r by blast
qed

lemma run_rounds_inv:
  assumes "run_rounds app rounds n bufs t = r" and "on_pace t" and "final_state r = Some t'"
  shows "on_pace t' \<and> max_training_steps_per_env_step t' = max_training_steps_per_env_step t"
  using assms
proof (induction rounds arbitrary: t bufs)
  case 0
  then show ?case by (auto simp: final_state_def)
next
  case (Suc rounds)
  show ?case
  proof (cases "run_round app n bufs t")
    case (Returned x)
    obtain t1 rest where x: "x = (t1, rest)" by (cases x)
    have f1: "final_state (run_round app n bufs t) = Some t1"
      using Returned x by (simp add: final_state_def)
    have h1: "on_pace t1" "max_training_steps_per_env_step t1 = max_training_steps_per_env_step t"
      using run_round_inv[OF refl Suc.prems(2) f1] by blast+
    have "run_rounds app rounds n rest t1 = r"
      using Suc.prems(1) Returned x by simp
    from Suc.IH[OF this h1(1) Suc.prems(3)] show ?thesis
      using h1(2) by simp
  next
    case (Raised e)
    then have "r = Raised e" using Suc.prems(1) by simp
    then show ?thesis using Suc.prems(3) by (simp add: final_state_def)
  next
    case (Awaiting x)
    then have r: "r = Awaiting x" using Suc.prems(1) by simp
    show ?thesis
      using run_round_inv[OF Awaiting Suc.prems(2)] Suc.prems(3) unfolding r by blast
  qed
qed

lemma run_epoch_inv:
  assumes "on_pace t" and "final_state (run_epoch app rounds n bufs t) = Some t'"
  shows "on_pace t'"
proof (cases "run_rounds app rounds n bufs t")
  case (Returned x)
  obtain t1 rest where x: "x = (t1, rest)" by (cases x)
  have f1: "final_state (run_rounds app rounds n bufs t) = Some t1"
    using Returned x by (simp add: final_state_def)
  have "on_pace t1"
    using run_rounds_inv[OF refl assms(1) f1] by blast
  moreover have "t' = t1\<lparr>epoch := epoch t1 + 1\<rparr>"
    using assms(2) Returned x by (simp add: run_epoch_def final_state_def)
  ultimately show ?thesis by (simp add: on_pace_def)
next
  case (Raised e)
  then show ?thesis using assms(2) by (simp add: run_epoch_def final_state_def)
next
  case (Awaiting x)
  then have "final_state (run_rounds app rounds n bufs t) = Some t'"
    using assms(2) by (simp add: run_epoch_def final_state_def)
  then show ?thesis
    using run_rounds_inv[OF refl assms(1)] by blast
qed


section \<open>Appending to a sound store\<close>

lemma map2_append_Nil: "map2 (@) xs (replicate (length xs) []) = xs"
  by (induction xs) simp_all

lemma py_index_last: "xs \<noteq> [] \<Longrightarrow> py_index xs (- 1) = Inr (last xs)"
  by (cases xs rule: rev_cases) (simp_all add: py_index_def Let_def nth_append)

lemma extend_cols_seven:
  assumes "7 \<le> length dat" and "length ds = 7"
  shows "\<exists>dat'. extend_cols dat ds = Inr dat' \<and> length dat' = length dat
           \<and> dat' ! 0 = dat ! 0 @ ds ! 0"
proof -
  obtain c cs where dat: "dat = c # cs" using assms(1) by (cases dat) auto
  obtain d dd where ds: "ds = d # dd" using assms(2) by (cases ds) auto
  show ?thesis
    using assms unfolding extend_cols_def dat ds by (simp add: min_def)
qed

lemma TMNF_len_data:
  "d \<noteq> [] \<Longrightarrow>
   TMNF_len (m\<lparr>data := d\<rparr>) = max 0 (int (length (d ! 0)) - min_samples m - 1)"
  by (simp add: TMNF_len_def Let_def max_def)

lemma trim_sound:
  fixes m :: "'v memory_tmnf"
  assumes "7 \<le> length dat" and "0 \<le> min_samples m" and "0 \<le> memory_size m"
    and "0 < TMNF_len (m\<lparr>data := dat\<rparr>) \<Longrightarrow>
           (case last (dat ! 0) of PyInt k \<Rightarrow> True | PyObj x \<Rightarrow> False)"
  shows "\<exists>m'. (if 0 < TMNF_len (m\<lparr>data := dat\<rparr>) - memory_size m
               then after (trim_cols 7 (TMNF_len (m\<lparr>data := dat\<rparr>) - memory_size m) dat)
                      (\<lambda>dat'. Inr (m\<lparr>data := dat'\<rparr>))
               else Inr (m\<lparr>data := dat\<rparr>)) = Inr m' \<and> sound_store m'
             \<and> TMNF_len m' = min (TMNF_len (m\<lparr>data := dat\<rparr>)) (memory_size m)"
proof (cases "0 < TMNF_len (m\<lparr>data := dat\<rparr>) - memory_size m")
  case False
  then show ?thesis
    using assms by (simp add: sound_store_def)
next
  case True
  let ?t = "TMNF_len (m\<lparr>data := dat\<rparr>) - memory_size m"
  obtain c cs where dat: "dat = c # cs" using assms(1) by (cases dat) auto
  have len: "TMNF_len (m\<lparr>data := dat\<rparr>) = int (length c) - min_samples m - 1"
      "0 < int (length c) - min_samples m - 1"
    using True assms(3) by (auto simp: TMNF_len_def Let_def dat split: if_splits)
  have t: "nat ?t < length c" "int (nat ?t) = ?t"
    using True len assms(2,3) by simp_all
  define dat' where "dat' = map (\<lambda>c. py_slice_from c ?t) (take 7 dat) @ drop 7 dat"
  have tr: "trim_cols 7 ?t dat = Inr dat'"
    using assms(1) by (simp add: trim_cols_def dat'_def)
  have d0: "dat' ! 0 = drop (nat ?t) c" "dat' \<noteq> []"
    using True unfolding dat'_def by (simp_all add: dat py_slice_from_pos eval_nat_numeral)
  have l7: "7 \<le> length dat'" using assms(1) by (simp add: dat'_def)
  have l': "TMNF_len (m\<lparr>data := dat'\<rparr>) = memory_size m"
  proof -
    have "int (length (dat' ! 0)) = int (length c) - ?t"
      unfolding d0 using t by simp
    then have "int (length (dat' ! 0)) - min_samples m - 1 = memory_size m"
      using len(1) by simp
    then show ?thesis
      using assms(3) by (simp add: TMNF_len_data[OF d0(2)])
  qed
  have la: "last (dat' ! 0) = last (dat ! 0)"
    unfolding d0 using t(1) by (simp add: dat)
  have pos: "0 < TMNF_len (m\<lparr>data := dat\<rparr>)"
    using len by simp
  have "sound_store (m\<lparr>data := dat'\<rparr>)"
    unfolding sound_store_def using l' l7 assms(2,3) assms(4)[OF pos] la
    by simp
  moreover have "min (TMNF_len (m\<lparr>data := dat\<rparr>)) (memory_size m) = memory_size m"
    using True by simp
  ultimately show ?thesis
    using True tr l' by (simp add: after_def)
qed

lemma append_buffer_sound:
  fixes m :: "'v memory_tmnf"
  assumes "sound_store m"
  shows "\<exists>m'. append_buffer buffer m = Inr m' \<and> sound_store m'
           \<and> (buffer = [] \<longrightarrow> TMNF_len m' = TMNF_len m)"
proof -
  have c: "0 \<le> min_samples m" "TMNF_len m \<le> memory_size m"
    using assms by (simp_all add: sound_store_def)
  have "0 \<le> TMNF_len m" by (simp add: TMNF_len_def Let_def)
  then have ms: "0 \<le> memory_size m" using c(2) by simp
  define first where "first = (if 0 < TMNF_len m then after (field m 0 (- 1)) py_succ else Inr 0)"
  define ds where "ds f = [map (\<lambda>i. PyInt (f + int i)) [0..<length buffer],
             map (\<lambda>(act, (speed, lidar), rew, done, info). act) buffer,
             map (\<lambda>(act, (speed, lidar), rew, done, info). speed) buffer,
             map (\<lambda>(act, (speed, lidar), rew, done, info). lidar) buffer,
             map (\<lambda>(act, (speed, lidar), rew, done, info). done) buffer,
             map (\<lambda>(act, (speed, lidar), rew, done, info). rew) buffer,
             map (\<lambda>(act, (speed, lidar), rew, done, info). info) buffer]" for f :: int
  have unf: "append_buffer buffer m =
     after first (\<lambda>f.
       after (if 0 < TMNF_len m then extend_cols (data m) (ds f) else Inr (data m @ ds f))
         (\<lambda>dat. if 0 < TMNF_len (m\<lparr>data := dat\<rparr>) - memory_size m
                then after (trim_cols 7 (TMNF_len (m\<lparr>data := dat\<rparr>) - memory_size m) dat)
                       (\<lambda>dat'. Inr (m\<lparr>data := dat'\<rparr>))
                else Inr (m\<lparr>data := dat\<rparr>)))"
    unfolding append_buffer_def first_def ds_def Let_def by (rule refl)
  have dsl: "length (ds f) = 7" "ds f ! 0 = map (\<lambda>i. PyInt (f + int i)) [0..<length buffer]" for f
    by (simp_all add: ds_def)
  have last0: "(case last (xs @ ds f ! 0) of PyInt k \<Rightarrow> True | PyObj x \<Rightarrow> False)"
    if "buffer = [] \<Longrightarrow> xs \<noteq> [] \<and> (case last xs of PyInt k \<Rightarrow> True | PyObj x \<Rightarrow> False)"
    for xs f
  proof (cases "buffer = []")
    case True
    then show ?thesis using that by (simp add: dsl)
  next
    case False
    then have "ds f ! 0 \<noteq> []" by (simp add: dsl)
    then have "last (xs @ ds f ! 0) = last (ds f ! 0)" by simp
    also have "\<dots> = PyInt (f + int (length buffer - 1))"
      using False unfolding dsl by (simp add: last_map last_upt)
    finally show ?thesis by simp
  qed
  show ?thesis
  proof (cases "0 < TMNF_len m")
    case True
    then have s: "7 \<le> length (data m)"
        "(case last (data m ! 0) of PyInt k \<Rightarrow> True | PyObj x \<Rightarrow> False)"
      using assms by (simp_all add: sound_store_def)
    obtain k where k: "last (data m ! 0) = PyInt k"
      using s(2) by (auto split: pyobj.splits)
    have ne: "data m ! 0 \<noteq> []" "data m \<noteq> []"
      using True c(1) by (auto simp: TMNF_len_def Let_def split: if_splits)
    have "py_index (data m ! 0) (- 1) = Inr (last (data m ! 0))"
      using ne(1) by (rule py_index_last)
    then have first: "first = Inr (k + 1)"
      using ne(2) k True by (simp add: first_def field_def py_index_def py_succ_def after_def)
    obtain dat where dat: "extend_cols (data m) (ds (k + 1)) = Inr dat"
        "length dat = length (data m)" "dat ! 0 = data m ! 0 @ ds (k + 1) ! 0"
      using extend_cols_seven[OF s(1) dsl(1)] by blast
    have l7: "7 \<le> length dat" using dat(2) s(1) by simp
    have li: "(case last (dat ! 0) of PyInt k \<Rightarrow> True | PyObj x \<Rightarrow> False)"
      unfolding dat(3) using ne(1) s(2) by (intro last0) simp
    obtain m' where m': "(if 0 < TMNF_len (m\<lparr>data := dat\<rparr>) - memory_size m
               then after (trim_cols 7 (TMNF_len (m\<lparr>data := dat\<rparr>) - memory_size m) dat)
                      (\<lambda>dat'. Inr (m\<lparr>data := dat'\<rparr>))
               else Inr (m\<lparr>data := dat\<rparr>)) = Inr m'" "sound_store m'"
        "TMNF_len m' = min (TMNF_len (m\<lparr>data := dat\<rparr>)) (memory_size m)"
      using trim_sound[OF l7 c(1) ms li] by blast
    have a: "append_buffer buffer m = Inr m'"
      unfolding unf first using True dat(1) m'(1) by (simp add: after_def)
    have "TMNF_len m' = TMNF_len m" if "buffer = []"
    proof -
      have "dat ! 0 = data m ! 0" using that dat(3) by (simp add: dsl)
      moreover have "dat \<noteq> []" using l7 by auto
      ultimately have "TMNF_len (m\<lparr>data := dat\<rparr>) = TMNF_len m"
        using ne(2) by (simp add: TMNF_len_def)
      then show ?thesis using m'(3) c(2) by simp
    qed
    then show ?thesis using a m'(2) by blast
  next
    case False
    then have l0: "TMNF_len m = 0"
      by (simp add: TMNF_len_def Let_def split: if_splits)
    have first: "first = Inr 0" using False by (simp add: first_def)
    let ?dat = "data m @ ds 0"
    have l7: "7 \<le> length ?dat" by (simp add: dsl)
    have len1: "TMNF_len (m\<lparr>data := ?dat\<rparr>) = 0" if "data m \<noteq> []"
    proof -
      have "?dat ! 0 = data m ! 0" using that by (cases "data m") simp_all
      then show ?thesis using l0 that by (simp add: TMNF_len_def)
    qed
    have li: "(case last (?dat ! 0) of PyInt k \<Rightarrow> True | PyObj x \<Rightarrow> False)"
      if pos: "0 < TMNF_len (m\<lparr>data := ?dat\<rparr>)"
    proof -
      have e: "data m = []" using len1 pos by auto
      then have d: "?dat ! 0 = [] @ ds 0 ! 0" by simp
      have "buffer \<noteq> []"
        using pos c(1) e by (auto simp: TMNF_len_def Let_def dsl split: if_splits)
      then show ?thesis unfolding d by (intro last0) simp
    qed
    obtain m' where m': "(if 0 < TMNF_len (m\<lparr>data := ?dat\<rparr>) - memory_size m
               then after (trim_cols 7 (TMNF_len (m\<lparr>data := ?dat\<rparr>) - memory_size m) ?dat)
                      (\<lambda>dat'. Inr (m\<lparr>data := dat'\<rparr>))
               else Inr (m\<lparr>data := ?dat\<rparr>)) = Inr m'" "sound_store m'"
        "TMNF_len m' = min (TMNF_len (m\<lparr>data := ?dat\<rparr>)) (memory_size m)"
      using trim_sound[OF l7 c(1) ms li] by blast
    have a: "append_buffer buffer m = Inr m'"
      unfolding unf first using False m'(1) by (simp add: after_def)
    have "TMNF_len m' = TMNF_len m" if b: "buffer = []"
    proof -
      have "TMNF_len (m\<lparr>data := ?dat\<rparr>) = 0"
      proof (cases "data m = []")
        case True
        then show ?thesis using b c(1) by (simp add: TMNF_len_def Let_def ds_def)
      next
        case False
        then show ?thesis by (rule len1)
      qed
      then show ?thesis using m'(3) ms l0 by simp
    qed
    then show ?thesis using a m'(2) by blast
  qed
qed


section \<open>Claim C6: the training loop is paced by the ratio check\<close>

text \<open>
  Claim C6, as amended. The ratio is the one Python computes, the double nearest to
  \<open>total_updates / total_samples\<close>. \<^verbatim>\<open>check_ratio\<close> waits exactly when there is no sample
  or the computed ratio is greater than the bound, and returns at once otherwise; when it
  returns the computed ratio is within the bound, it has consumed buffers up to that
  point and slept after each of them but the last; while it has not returned it has slept
  after every buffer; it returns as soon as the delivered samples suffice, on a memory
  whose \<^verbatim>\<open>append\<close> keeps an invariant \<open>I\<close> and raises nothing under it, when
  \<open>total_updates\<close> is in the range of a double. Hence at every observation point of
  \<^verbatim>\<open>run_epoch\<close> the computed ratio is within the bound before a training step, and after
  it the counters are one update above counters whose computed ratio is within the bound,
  the check being made after every single update.
\<close>

theorem check_ratio_paces_training:
  "(total_samples t \<le> 0 \<longrightarrow> waiting t = Inr True)
   \<and> (0 < total_samples t \<and> 0 \<le> total_updates t
        \<and> float_div (total_updates t) (total_samples t) = Inr q
        \<longrightarrow> waiting t = Inr (max_training_steps_per_env_step t < q))
   \<and> (waiting t = Inr False \<longrightarrow> check_ratio app bufs t = Returned (t, bufs))
   \<and> (waiting t = Inr True \<longrightarrow> check_ratio app bufs t = polling app bufs t)
   \<and> (check_ratio app bufs t = Returned (t1, rest) \<longrightarrow>
        waiting t1 = Inr False \<and> total_updates t1 = total_updates t
        \<and> total_samples t1 = total_samples t + delivered bufs (length bufs - length rest)
        \<and> (waiting t = Inr True \<longrightarrow> sleeps t1 + 1 = sleeps t + (length bufs - length rest)))
   \<and> (check_ratio app bufs t = Awaiting (t1, rest) \<longrightarrow>
        waiting t1 = Inr True \<and> rest = [] \<and> sleeps t1 = sleeps t + length bufs)
   \<and> ((\<forall>b m. I m \<longrightarrow> (\<exists>m'. app b m = Inr m' \<and> I m')) \<and> I (memory t)
        \<and> 0 \<le> total_updates t \<and> float_div (total_updates t) 1 = Inr q0
        \<and> k \<le> length bufs
        \<and> in_bound (max_training_steps_per_env_step t) (total_updates t)
             (total_samples t + delivered bufs k)
        \<longrightarrow> (\<exists>t' rest'. check_ratio app bufs t = Returned (t', rest')
               \<and> length bufs - length rest' \<le> k))
   \<and> (waiting t = Inr False \<and> on_pace t \<and> train_batches app n bufs t = Returned (t1, rest) \<longrightarrow>
        waiting t1 = Inr False \<and> on_pace t1)
   \<and> (on_pace t \<and> final_state (run_epoch app rounds n bufs t) = Some t2 \<longrightarrow> on_pace t2)"
proof (intro conjI impI)
  assume "total_samples t \<le> 0"
  then show "waiting t = Inr True" by (rule waiting_no_samples)
next
  assume "0 < total_samples t \<and> 0 \<le> total_updates t
        \<and> float_div (total_updates t) (total_samples t) = Inr q"
  then show "waiting t = Inr (max_training_steps_per_env_step t < q)"
    using waiting_by_ratio[of t q] by blast
next
  assume "waiting t = Inr False"
  then show "check_ratio app bufs t = Returned (t, bufs)"
    by (simp add: check_ratio_def)
next
  assume "waiting t = Inr True"
  then show "check_ratio app bufs t = polling app bufs t"
    by (simp add: check_ratio_def)
next
  assume a: "check_ratio app bufs t = Returned (t1, rest)"
  note post = check_ratio_post[OF a]
  show "waiting t1 = Inr False" "total_updates t1 = total_updates t"
    "total_samples t1 = total_samples t + delivered bufs (length bufs - length rest)"
    using post by blast+
  assume "waiting t = Inr True"
  then show "sleeps t1 + 1 = sleeps t + (length bufs - length rest)"
    using post by auto
next
  assume a: "check_ratio app bufs t = Awaiting (t1, rest)"
  note post = check_ratio_post[OF a]
  show "waiting t1 = Inr True" "rest = []" "sleeps t1 = sleeps t + length bufs"
    using post by blast+
next
  assume a: "(\<forall>b m. I m \<longrightarrow> (\<exists>m'. app b m = Inr m' \<and> I m')) \<and> I (memory t)
        \<and> 0 \<le> total_updates t \<and> float_div (total_updates t) 1 = Inr q0
        \<and> k \<le> length bufs
        \<and> in_bound (max_training_steps_per_env_step t) (total_updates t)
             (total_samples t + delivered bufs k)"
  then have inv: "\<And>b m. I m \<Longrightarrow> \<exists>m'. app b m = Inr m' \<and> I m'"
    by blast
  from a have b: "I (memory t)" "0 \<le> total_updates t" "float_div (total_updates t) 1 = Inr q0"
    "k \<le> length bufs"
    "in_bound (max_training_steps_per_env_step t) (total_updates t)
       (total_samples t + delivered bufs k)"
    by blast+
  show "\<exists>t' rest'. check_ratio app bufs t = Returned (t', rest')
               \<and> length bufs - length rest' \<le> k"
    using check_ratio_returns[of I app, OF inv b] by blast
next
  assume a: "waiting t = Inr False \<and> on_pace t \<and> train_batches app n bufs t = Returned (t1, rest)"
  have f: "final_state (Returned (t1, rest)) = Some t1"
    by (simp add: final_state_def)
  from a have b: "train_batches app n bufs t = Returned (t1, rest)" "waiting t = Inr False"
      "on_pace t"
    by blast+
  show "waiting t1 = Inr False" "on_pace t1"
    using train_batches_inv[OF b f] by blast+
next
  assume "on_pace t \<and> final_state (run_epoch app rounds n bufs t) = Some t2"
  then show "on_pace t2"
    using run_epoch_inv[of t app rounds n bufs t2] by blast
qed


text \<open>
  The scenario of the specification: 1000 updates on 1000 samples with the bound 1.0 do
  not wait; one more update makes the ratio 1.001, and the next check ingests a sample
  before it returns. The return of the check is shown on a lidar memory, whose append
  keeps sound stores sound.
\<close>

theorem check_ratio_paces_training_witness:
  "total_samples (example_trainer 0 0) \<le> 0
   \<and> waiting (example_trainer 0 0) = Inr True
   \<and> float_div 1000 1000 = Inr 1
   \<and> waiting (example_trainer 1000 1000) = Inr False
   \<and> check_ratio no_memory [[], [5]] (example_trainer 1000 1000)
       = Returned (example_trainer 1000 1000, [[], [5]])
   \<and> float_div 1001 1000 = Inr (2254051613498933 / 2251799813685248)
   \<and> waiting (example_trainer 1001 1000) = Inr True
   \<and> check_ratio no_memory [[], [5], [6]] (example_trainer 1001 1000)
       = Returned ((example_trainer 1001 1001)\<lparr>sleeps := 1\<rparr>, [[6]])
   \<and> waiting ((example_trainer 1001 1001)\<lparr>sleeps := 1\<rparr>) = Inr False
   \<and> sleeps ((example_trainer 1001 1001)\<lparr>sleeps := 1\<rparr>) + 1
       = sleeps (example_trainer 1001 1000) + (length [[], [5], [6::nat]] - length [[6::nat]])
   \<and> check_ratio no_memory [[], []] (example_trainer 1001 1000)
       = Awaiting ((example_trainer 1001 1000)\<lparr>sleeps := 2\<rparr>, [])
   \<and> waiting ((example_trainer 1001 1000)\<lparr>sleeps := 2\<rparr>) = Inr True
   \<and> sound_store (memory lidar_trainer)
   \<and> float_div (total_updates lidar_trainer) 1 = Inr 11
   \<and> in_bound (max_training_steps_per_env_step lidar_trainer) (total_updates lidar_trainer)
        (total_samples lidar_trainer + delivered [[], labelled_buffer 10 1, []] 2)
   \<and> (\<exists>t' rest'. check_ratio MemoryDataloading_append [[], labelled_buffer 10 1, []]
                      lidar_trainer = Returned (t', rest')
          \<and> length [[], labelled_buffer 10 1, []] - length rest' \<le> 2)
   \<and> on_pace (example_trainer 1000 1000)
   \<and> final_state (run_epoch no_memory 1 2 [[], [5], [6]] (example_trainer 1000 1000))
       = Some \<lparr>memory = (), epoch = 1, total_samples = 1002, total_updates = 1002,
               max_training_steps_per_env_step = 1, update_model_interval = 100,
               sleeps = 0, broadcasts = 0,
               observed = [(Before_step, 1000, 1000), (After_step, 1001, 1000),
                           (Before_step, 1001, 1001), (After_step, 1002, 1001)]\<rparr>
   \<and> on_pace \<lparr>memory = (), epoch = 1, total_samples = 1002, total_updates = 1002,
               max_training_steps_per_env_step = 1, update_model_interval = 100,
               sleeps = 0, broadcasts = 0,
               observed = [(Before_step, 1000, 1000), (After_step, 1001, 1000),
                           (Before_step, 1001, 1001), (After_step, 1002, 1001)]\<rparr>"
proof -
  let ?Z = "example_trainer 0 0"
  let ?A = "example_trainer 1000 1000"
  let ?B = "example_trainer 1001 1000"
  let ?B1 = "(example_trainer 1001 1001)\<lparr>sleeps := 1\<rparr>"
  let ?B2 = "(example_trainer 1001 1000)\<lparr>sleeps := 2\<rparr>"
  let ?L = "[[], labelled_buffer 10 1, []]"
  let ?E = "\<lparr>memory = (), epoch = 1, total_samples = 1002, total_updates = 1002,
               max_training_steps_per_env_step = 1, update_model_interval = 100,
               sleeps = 0, broadcasts = 0,
               observed = [(Before_step, 1000, 1000), (After_step, 1001, 1000),
                           (Before_step, 1001, 1001), (After_step, 1002, 1001)]\<rparr>"
  note T = check_ratio_paces_training
  note T1 = T[THEN conjunct1, THEN mp]
  note T2 = T[THEN conjunct2, THEN conjunct1, THEN mp]
  note T3 = T[THEN conjunct2, THEN conjunct2, THEN conjunct1, THEN mp]
  note T5 = T[THEN conjunct2, THEN conjunct2, THEN conjunct2, THEN conjunct2, THEN conjunct1,
      THEN mp]
  note T6 = T[THEN conjunct2, THEN conjunct2, THEN conjunct2, THEN conjunct2, THEN conjunct2,
      THEN conjunct1, THEN mp]
  note T7 = T[THEN conjunct2, THEN conjunct2, THEN conjunct2, THEN conjunct2, THEN conjunct2,
      THEN conjunct2, THEN conjunct1, THEN mp]
  note T9 = T[THEN conjunct2, THEN conjunct2, THEN conjunct2, THEN conjunct2, THEN conjunct2,
      THEN conjunct2, THEN conjunct2, THEN conjunct2, THEN mp]
  have z1: "total_samples ?Z \<le> 0" by (simp add: example_trainer_def)
  have z2: "waiting ?Z = Inr True" by (rule T1[OF z1])
  have a0: "float_div 1000 1000 = Inr 1" by code_simp
  have a1: "waiting ?A = Inr False"
  proof -
    have "0 < total_samples ?A \<and> 0 \<le> total_updates ?A
        \<and> float_div (total_updates ?A) (total_samples ?A) = Inr 1"
      using a0 by (simp add: example_trainer_def)
    then have "waiting ?A = Inr (max_training_steps_per_env_step ?A < 1)"
      by (rule T2)
    then show ?thesis by (simp add: example_trainer_def)
  qed
  have a2: "check_ratio no_memory [[], [5]] ?A = Returned (?A, [[], [5]])"
    by (rule T3[OF a1])
  have b0: "float_div 1001 1000 = Inr (2254051613498933 / 2251799813685248)" by code_simp
  have b2: "waiting ?B = Inr True"
  proof -
    have "0 < total_samples ?B \<and> 0 \<le> total_updates ?B
        \<and> float_div (total_updates ?B) (total_samples ?B)
            = Inr (2254051613498933 / 2251799813685248)"
      using b0 by (simp add: example_trainer_def)
    then have "waiting ?B
        = Inr (max_training_steps_per_env_step ?B < 2254051613498933 / 2251799813685248)"
      by (rule T2)
    then show ?thesis by (simp add: example_trainer_def)
  qed
  have b3: "check_ratio no_memory [[], [5], [6]] ?B = Returned (?B1, [[6]])"
    by code_simp
  note b5 = T5[OF b3]
  have b4: "waiting ?B1 = Inr False"
    using b5 by (rule conjunct1)
  have b6: "sleeps ?B1 + 1 = sleeps ?B + (length [[], [5], [6::nat]] - length [[6::nat]])"
    by (rule b5[THEN conjunct2, THEN conjunct2, THEN conjunct2, THEN mp, OF b2])
  have c1: "check_ratio no_memory [[], []] ?B = Awaiting (?B2, [])"
    by code_simp
  have c2: "waiting ?B2 = Inr True"
    by (rule T6[OF c1, THEN conjunct1])
  have d0: "\<forall>b m. sound_store m \<longrightarrow>
              (\<exists>m'. MemoryDataloading_append b m = Inr m'
                    \<and> sound_store (m' :: (nat \<times> nat) memory_tmnf))"
    using append_buffer_sound unfolding MemoryDataloading_append_def by blast
  have d1: "sound_store (memory lidar_trainer)" by code_simp
  have d2: "0 \<le> total_updates lidar_trainer" "(2::nat) \<le> length ?L"
    by (simp_all add: lidar_trainer_def)
  have d3: "float_div (total_updates lidar_trainer) 1 = Inr 11" by code_simp
  have d4: "in_bound (max_training_steps_per_env_step lidar_trainer) (total_updates lidar_trainer)
        (total_samples lidar_trainer + delivered ?L 2)"
    by code_simp
  have d5: "\<exists>t' rest'. check_ratio MemoryDataloading_append ?L lidar_trainer = Returned (t', rest')
          \<and> length ?L - length rest' \<le> 2"
    by (rule T7[of sound_store MemoryDataloading_append lidar_trainer 11 2 ?L])
      (intro conjI d0 d1 d2 d3 d4)
  have e1: "on_pace ?A"
    by (simp add: on_pace_def example_trainer_def)
  have e2: "final_state (run_epoch no_memory 1 2 [[], [5], [6]] ?A) = Some ?E"
    by code_simp
  have e3: "on_pace ?E"
    by (rule T9[OF conjI[OF e1 e2]])
  show ?thesis
    by (rule conjI z1 z2 a0 a1 a2 b0 b2 b3 b4 b6 c1 c2 d1 d3 d4 d5 e1 e2 e3)+
qed

text \<open>
  With the quotient of the integers themselves the claim fails: at \<open>2\<^sup>5\<^sup>4 + 1\<close> updates on
  \<open>2\<^sup>5\<^sup>4\<close> samples the quotient is above the bound 1.0 and the double nearest to it is
  1.0, so the check returns at once and a training step is made; after it the quotient is
  more than one update's contribution above the bound, and the check returns again.
\<close>

theorem ratio_above_bound_not_starved_counterexample:
  "waiting (example_trainer 18014398509481985 18014398509481984) = Inr False
   \<and> max_training_steps_per_env_step (example_trainer 18014398509481985 18014398509481984)
       < of_int (total_updates (example_trainer 18014398509481985 18014398509481984))
         / of_int (total_samples (example_trainer 18014398509481985 18014398509481984))
   \<and> check_ratio no_memory [] (example_trainer 18014398509481985 18014398509481984)
       = Returned (example_trainer 18014398509481985 18014398509481984, [])
   \<and> train_batches no_memory 1 [] (example_trainer 18014398509481985 18014398509481984)
       = Returned ((example_trainer 18014398509481986 18014398509481984)
                     \<lparr>observed := [(Before_step, 18014398509481985, 18014398509481984),
                                   (After_step, 18014398509481986, 18014398509481984)]\<rparr>, [])
   \<and> (1 :: rat) + 1 / 18014398509481984 < 18014398509481986 / 18014398509481984"
proof -
  let ?T = "example_trainer 18014398509481985 18014398509481984"
  have a: "waiting ?T = Inr False" by code_simp
  have b: "max_training_steps_per_env_step ?T
       < of_int (total_updates ?T) / of_int (total_samples ?T)"
    by (simp add: example_trainer_def)
  have c: "check_ratio no_memory [] ?T = Returned (?T, [])"
    by code_simp
  have d: "train_batches no_memory 1 [] ?T
       = Returned ((example_trainer 18014398509481986 18014398509481984)
                     \<lparr>observed := [(Before_step, 18014398509481985, 18014398509481984),
                                   (After_step, 18014398509481986, 18014398509481984)]\<rparr>, [])"
    by code_simp
  have e: "(1 :: rat) + 1 / 18014398509481984 < 18014398509481986 / 18014398509481984"
    by simp
  show ?thesis by (rule conjI a b c d e)+
qed


section \<open>Claim C9: an empty buffer\<close>

lemma update_buffer_empty:
  assumes "sound_store (memory t)"
  shows "\<exists>t'. update_buffer MemoryDataloading_append [] t = Inr t'
      \<and> total_samples t' = total_samples t \<and> total_updates t' = total_updates t
      \<and> max_training_steps_per_env_step t' = max_training_steps_per_env_step t
      \<and> sleeps t' = sleeps t
      \<and> TMNF_len (memory t') = TMNF_len (memory t)
      \<and> sound_store (memory t')"
proof -
  obtain m' where m': "append_buffer [] (memory t) = Inr m'" "sound_store m'"
      "TMNF_len m' = TMNF_len (memory t)"
    using append_buffer_sound[OF assms, of "[]"] by blast
  let ?t' = "t\<lparr>memory := m', total_samples := total_samples t + int (length ([] :: 'a sample list))\<rparr>"
  have "update_buffer MemoryDataloading_append [] t = Inr ?t'"
    by (simp add: update_buffer_def MemoryDataloading_append_def m'(1) after_def)
  then show ?thesis
    using m'(2,3) by (intro exI[of _ ?t']) simp
qed

lemma empty_buffers_polled:
  assumes "sound_store (memory t)" and "waiting t = Inr True"
  shows "\<exists>t'. (\<forall>bufs. polling MemoryDataloading_append (replicate k [] @ bufs) t
                   = polling MemoryDataloading_append bufs t')
      \<and> total_samples t' = total_samples t \<and> total_updates t' = total_updates t
      \<and> max_training_steps_per_env_step t' = max_training_steps_per_env_step t
      \<and> TMNF_len (memory t') = TMNF_len (memory t) \<and> sound_store (memory t')
      \<and> sleeps t' = sleeps t + k \<and> waiting t' = Inr True"
  using assms
proof (induction k arbitrary: t)
  case 0
  then show ?case by (intro exI[of _ t]) simp
next
  case (Suc k)
  obtain t1 where t1: "update_buffer MemoryDataloading_append [] t = Inr t1"
      "total_samples t1 = total_samples t" "total_updates t1 = total_updates t"
      "max_training_steps_per_env_step t1 = max_training_steps_per_env_step t"
      "sleeps t1 = sleeps t"
      "TMNF_len (memory t1) = TMNF_len (memory t)" "sound_store (memory t1)"
    using update_buffer_empty[OF Suc.prems(1)] by blast
  have w1: "waiting t1 = Inr True"
    using waiting_cong[OF t1(2,3,4)] Suc.prems(2) by simp
  let ?t2 = "t1\<lparr>sleeps := Suc (sleeps t1)\<rparr>"
  have w2: "waiting ?t2 = Inr True"
    using waiting_cong[of ?t2 t1] w1 by simp
  have s2: "sound_store (memory ?t2)" using t1(7) by simp
  obtain t' where t': "\<forall>bufs. polling MemoryDataloading_append (replicate k [] @ bufs) ?t2
                   = polling MemoryDataloading_append bufs t'"
      "total_samples t' = total_samples ?t2" "total_updates t' = total_updates ?t2"
      "max_training_steps_per_env_step t' = max_training_steps_per_env_step ?t2"
      "TMNF_len (memory t') = TMNF_len (memory ?t2)" "sound_store (memory t')"
      "sleeps t' = sleeps ?t2 + k" "waiting t' = Inr True"
    using Suc.IH[OF s2 w2] by blast
  have step: "polling MemoryDataloading_append (replicate (Suc k) [] @ bufs) t
                = polling MemoryDataloading_append bufs t'" for bufs
  proof -
    have "polling MemoryDataloading_append ([] # (replicate k [] @ bufs)) t
        = polling MemoryDataloading_append (replicate k [] @ bufs) ?t2"
      using t1(1) w1 by simp
    then show ?thesis using t'(1) by simp
  qed
  show ?case
    using step t' t1 by (intro exI[of _ t']) simp
qed

text \<open>
  Claim C9. When \<^verbatim>\<open>retrieve_buffer\<close> returns an empty buffer, \<^verbatim>\<open>update_buffer\<close> raises
  nothing and leaves \<open>total_samples\<close> and the length of a \<^verbatim>\<open>MemoryTMNFLidar\<close> unchanged,
  and the ratio is the same. A check that waits therefore goes through any number \<open>k\<close> of
  empty buffers without raising: it sleeps after each, is still waiting after the last
  with the same counters, and polls the buffers that follow from that state.
\<close>

theorem empty_buffer_changes_nothing:
  assumes "sound_store (memory t)"
  shows "(\<exists>t'. update_buffer MemoryDataloading_append [] t = Inr t'
           \<and> total_samples t' = total_samples t \<and> total_updates t' = total_updates t
           \<and> TMNF_len (memory t') = TMNF_len (memory t)
           \<and> sound_store (memory t')
           \<and> ratio t' = ratio t \<and> waiting t' = waiting t)
       \<and> (waiting t = Inr True \<longrightarrow>
           (\<exists>t'. check_ratio MemoryDataloading_append (replicate k []) t = Awaiting (t', [])
              \<and> (\<forall>bufs. check_ratio MemoryDataloading_append (replicate k [] @ bufs) t
                          = polling MemoryDataloading_append bufs t')
              \<and> total_samples t' = total_samples t \<and> total_updates t' = total_updates t
              \<and> TMNF_len (memory t') = TMNF_len (memory t)
              \<and> sound_store (memory t')
              \<and> sleeps t' = sleeps t + k
              \<and> ratio t' = ratio t \<and> waiting t' = Inr True))"
proof (intro conjI impI)
  obtain t' where t': "update_buffer MemoryDataloading_append [] t = Inr t'"
      "total_samples t' = total_samples t" "total_updates t' = total_updates t"
      "max_training_steps_per_env_step t' = max_training_steps_per_env_step t"
      "TMNF_len (memory t') = TMNF_len (memory t)" "sound_store (memory t')"
    using update_buffer_empty[OF assms] by blast
  have "ratio t' = ratio t" "waiting t' = waiting t"
    using t'(2,3,4) by (simp_all add: ratio_def waiting_def)
  then show "\<exists>t'. update_buffer MemoryDataloading_append [] t = Inr t'
           \<and> total_samples t' = total_samples t \<and> total_updates t' = total_updates t
           \<and> TMNF_len (memory t') = TMNF_len (memory t)
           \<and> sound_store (memory t')
           \<and> ratio t' = ratio t \<and> waiting t' = waiting t"
    using t' by blast
next
  assume w: "waiting t = Inr True"
  obtain t' where t': "\<forall>bufs. polling MemoryDataloading_append (replicate k [] @ bufs) t
                   = polling MemoryDataloading_append bufs t'"
      "total_samples t' = total_samples t" "total_updates t' = total_updates t"
      "max_training_steps_per_env_step t' = max_training_steps_per_env_step t"
      "TMNF_len (memory t') = TMNF_len (memory t)" "sound_store (memory t')"
      "sleeps t' = sleeps t + k" "waiting t' = Inr True"
    using empty_buffers_polled[OF assms w, of k] by blast
  have c: "check_ratio MemoryDataloading_append bs t = polling MemoryDataloading_append bs t"
    for bs
    using w by (simp add: check_ratio_def)
  have a: "check_ratio MemoryDataloading_append (replicate k []) t = Awaiting (t', [])"
    using t'(1)[rule_format, of "[]"] unfolding c by simp
  have r: "ratio t' = ratio t"
    using t'(2,3) by (simp add: ratio_def)
  show "\<exists>t'. check_ratio MemoryDataloading_append (replicate k []) t = Awaiting (t', [])
              \<and> (\<forall>bufs. check_ratio MemoryDataloading_append (replicate k [] @ bufs) t
                          = polling MemoryDataloading_append bufs t')
              \<and> total_samples t' = total_samples t \<and> total_updates t' = total_updates t
              \<and> TMNF_len (memory t') = TMNF_len (memory t)
              \<and> sound_store (memory t')
              \<and> sleeps t' = sleeps t + k
              \<and> ratio t' = ratio t \<and> waiting t' = Inr True"
    using a t' r unfolding c by (intro exI[of _ t']) simp
qed

text \<open>
  A lidar memory of ten rows, one update ahead of its samples, polled with three empty
  buffers.
\<close>

theorem empty_buffer_changes_nothing_witness:
  "sound_store (memory lidar_trainer) \<and> waiting lidar_trainer = Inr True
   \<and> (\<exists>t'. update_buffer MemoryDataloading_append [] lidar_trainer = Inr t'
        \<and> total_samples t' = 10 \<and> TMNF_len (memory t') = 5
        \<and> waiting t' = Inr True)
   \<and> (\<exists>t'. check_ratio MemoryDataloading_append (replicate 3 []) lidar_trainer
             = Awaiting (t', [])
        \<and> total_samples t' = 10 \<and> TMNF_len (memory t') = 5
        \<and> sleeps t' = 3 \<and> waiting t' = Inr True)"
proof -
  have a: "sound_store (memory lidar_trainer)" by code_simp
  have b: "waiting lidar_trainer = Inr True" by code_simp
  have c: "total_samples lidar_trainer = 10" "sleeps lidar_trainer = 0"
    by (simp_all add: lidar_trainer_def)
  have d: "TMNF_len (memory lidar_trainer) = 5" by code_simp
  note T = empty_buffer_changes_nothing[OF a, of 3]
  have y: "\<exists>t'. update_buffer MemoryDataloading_append [] lidar_trainer = Inr t'
        \<and> total_samples t' = 10 \<and> TMNF_len (memory t') = 5
        \<and> waiting t' = Inr True"
    using T[THEN conjunct1] unfolding c d b by blast
  have z: "\<exists>t'. check_ratio MemoryDataloading_append (replicate 3 []) lidar_trainer
             = Awaiting (t', [])
        \<and> total_samples t' = 10 \<and> TMNF_len (memory t') = 5
        \<and> sleeps t' = 3 \<and> waiting t' = Inr True"
    using T[THEN conjunct2, THEN mp, OF b] unfolding c d by auto
  show ?thesis by (rule conjI a b y z)+
qed

end
